theory Spec2Isabelle
  imports Complex_Main "HOL-Library.Word"
begin

unbundle bit_operations_syntax

section \<open>JavaScript values\<close>

text \<open>
  A JavaScript string is a sequence of UTF-16 code units, a byte buffer
  (\<^verbatim>\<open>ArrayBuffer\<close> seen through a \<^verbatim>\<open>Uint8Array\<close>) a list of bytes, an
  \<^verbatim>\<open>Int16Array\<close> a list of 16-bit words read as two's complement.  Audio
  samples and clock readings are finite floating-point numbers; they are
  modelled by the real number each one denotes (every operation the code
  applies to a sample is exact on 32-bit floats: a product of a 24-bit and
  a 15-bit significand, a truncation, a division by a power of two).
  \<^verbatim>\<open>NaN\<close> and the infinities are outside the model.
\<close>

type_synonym byte = "8 word"
type_synonym int16 = "16 word"
type_synonym code_unit = "16 word"
type_synonym jsstring = "code_unit list"

text \<open>String literals of the source, as code units.\<close>

definition js :: "string \<Rightarrow> jsstring" where
  "js s = map of_char s"

text \<open>The exceptions of the platform that the modelled code can meet.\<close>

datatype js_error =
    InvalidCharacterError
  | RangeError
  | NotSupportedError
  | InvalidStateError

section \<open>utils/audio.ts: the platform's base64 functions\<close>

text \<open>
  \<^verbatim>\<open>btoa\<close> and \<^verbatim>\<open>atob\<close> are functions of the browser.  They are modelled
  after the HTML Standard: \<^verbatim>\<open>btoa\<close> throws on a code unit above 255 and
  otherwise is the base64 encoding of RFC 4648 with padding; \<^verbatim>\<open>atob\<close> is
  the forgiving-base64 decoding (ASCII whitespace removed, one or two
  trailing \<^verbatim>\<open>=\<close> removed when the length is a multiple of four, failure on
  a length of 1 modulo 4 or on a character outside the alphabet, the bits
  left over with two or three trailing characters discarded).
\<close>

definition b64_alphabet :: jsstring where
  "b64_alphabet =
     js ''ABCDEFGHIJKLMNOPQRSTUVWXYZabcdefghijklmnopqrstuvwxyz0123456789+/''"

definition b64_char :: "nat \<Rightarrow> code_unit" where
  "b64_char n = b64_alphabet ! n"

fun index_of :: "'a \<Rightarrow> 'a list \<Rightarrow> nat option" where
  "index_of c [] = None"
| "index_of c (x # xs) =
     (if c = x then Some 0 else map_option Suc (index_of c xs))"

definition b64_index :: "code_unit \<Rightarrow> nat option" where
  "b64_index c = index_of c b64_alphabet"

definition pad_char :: code_unit where
  "pad_char = 61"

fun b64_encode :: "byte list \<Rightarrow> jsstring" where
  "b64_encode (a # b # c # rest) =
     [b64_char (unat a div 4),
      b64_char ((unat a mod 4) * 16 + unat b div 16),
      b64_char ((unat b mod 16) * 4 + unat c div 64),
      b64_char (unat c mod 64)] @ b64_encode rest"
| "b64_encode [a, b] =
     [b64_char (unat a div 4),
      b64_char ((unat a mod 4) * 16 + unat b div 16),
      b64_char ((unat b mod 16) * 4),
      pad_char]"
| "b64_encode [a] =
     [b64_char (unat a div 4),
      b64_char ((unat a mod 4) * 16),
      pad_char, pad_char]"
| "b64_encode [] = []"

definition btoa :: "jsstring \<Rightarrow> js_error + jsstring" where
  "btoa s =
     (if \<exists>u \<in> set s. 255 < u then Inl InvalidCharacterError
      else Inr (b64_encode (map ucast s)))"

definition is_ascii_whitespace :: "code_unit \<Rightarrow> bool" where
  "is_ascii_whitespace u \<longleftrightarrow> u = 9 \<or> u = 10 \<or> u = 12 \<or> u = 13 \<or> u = 32"

definition strip_padding :: "jsstring \<Rightarrow> jsstring" where
  "strip_padding s =
     (if length s mod 4 = 0 \<and> s \<noteq> [] \<and> last s = pad_char then
        (let s1 = butlast s
         in if s1 \<noteq> [] \<and> last s1 = pad_char then butlast s1 else s1)
      else s)"

fun b64_bytes :: "nat list \<Rightarrow> byte list" where
  "b64_bytes (s0 # s1 # s2 # s3 # rest) =
     [of_nat (s0 * 4 + s1 div 16),
      of_nat ((s1 mod 16) * 16 + s2 div 4),
      of_nat ((s2 mod 4) * 64 + s3)] @ b64_bytes rest"
| "b64_bytes [s0, s1, s2] =
     [of_nat (s0 * 4 + s1 div 16), of_nat ((s1 mod 16) * 16 + s2 div 4)]"
| "b64_bytes [s0, s1] = [of_nat (s0 * 4 + s1 div 16)]"
| "b64_bytes [s0] = []"
| "b64_bytes [] = []"

definition atob :: "jsstring \<Rightarrow> js_error + jsstring" where
  "atob s =
     (let t = strip_padding (filter (\<lambda>u. \<not> is_ascii_whitespace u) s)
      in if length t mod 4 = 1 then Inl InvalidCharacterError
         else (case those (map b64_index t) of
                 None \<Rightarrow> Inl InvalidCharacterError
               | Some sx \<Rightarrow> Inr (map ucast (b64_bytes sx))))"

section \<open>utils/audio.ts: PCM encoding and decoding\<close>

text \<open>
  Storing a number into an \<^verbatim>\<open>Int16Array\<close> truncates it towards zero and
  keeps the low 16 bits.
\<close>

definition to_int16 :: "real \<Rightarrow> int16" where
  "to_int16 v = word_of_int (if v < 0 then \<lceil>v\<rceil> else \<lfloor>v\<rfloor>)"

definition pcm_sample :: "real \<Rightarrow> int16" where
  "pcm_sample x =
     (let s = max (- 1) (min 1 x)
      in to_int16 (if s < 0 then s * 32768 else s * 32767))"

text \<open>The bytes of an \<^verbatim>\<open>Int16Array\<close>'s buffer, little-endian.\<close>

definition int16_bytes :: "int16 \<Rightarrow> byte list" where
  "int16_bytes w = [ucast w, ucast (drop_bit 8 w)]"

definition int16_buffer :: "int16 list \<Rightarrow> byte list" where
  "int16_buffer ws = concat (map int16_bytes ws)"

record pcm_blob =
  data :: jsstring
  mimeType :: jsstring

definition arrayBufferToBase64 :: "byte list \<Rightarrow> js_error + jsstring" where
  "arrayBufferToBase64 bytes = btoa (map ucast bytes)"

definition createPcmBlob :: "real list \<Rightarrow> js_error + pcm_blob" where
  "createPcmBlob samples =
     (case arrayBufferToBase64 (int16_buffer (map pcm_sample samples)) of
        Inl e \<Rightarrow> Inl e
      | Inr base64 \<Rightarrow>
          Inr \<lparr>data = base64, mimeType = js ''audio/pcm;rate=16000''\<rparr>)"

definition base64ToArrayBuffer :: "jsstring \<Rightarrow> js_error + byte list" where
  "base64ToArrayBuffer base64 =
     (case atob base64 of
        Inl e \<Rightarrow> Inl e
      | Inr binaryString \<Rightarrow> Inr (map ucast binaryString))"

text \<open>
  \<^verbatim>\<open>new Int16Array(buffer)\<close> throws a \<^verbatim>\<open>RangeError\<close> when the byte length
  of the buffer is odd.
\<close>

fun int16_of_bytes :: "byte list \<Rightarrow> int16 list" where
  "int16_of_bytes (lo # hi # rest) =
     (ucast lo OR push_bit 8 (ucast hi)) # int16_of_bytes rest"
| "int16_of_bytes _ = []"

definition new_Int16Array :: "byte list \<Rightarrow> js_error + int16 list" where
  "new_Int16Array buffer =
     (if odd (length buffer) then Inl RangeError
      else Inr (int16_of_bytes buffer))"

record audio_buffer =
  numberOfChannels :: nat
  sampleRate :: real
  channelData :: "real list"

text \<open>
  \<^verbatim>\<open>ctx.createBuffer(numberOfChannels, length, sampleRate)\<close> of the Web
  Audio API throws a \<^verbatim>\<open>NotSupportedError\<close> when an argument is zero (or
  negative); the implementation-specific upper limits are not modelled,
  the code passes one channel and 24000 Hz.
\<close>

definition createBuffer :: "nat \<Rightarrow> nat \<Rightarrow> real \<Rightarrow> js_error + audio_buffer" where
  "createBuffer numChannels frameCount rate =
     (if numChannels = 0 \<or> frameCount = 0 \<or> rate \<le> 0 then Inl NotSupportedError
      else Inr \<lparr>numberOfChannels = numChannels, sampleRate = rate,
                channelData = replicate frameCount 0\<rparr>)"

definition duration :: "audio_buffer \<Rightarrow> real" where
  "duration b = real (length (channelData b)) / sampleRate b"

text \<open>
  \<^verbatim>\<open>decodeAudioData\<close> is an async function without an await: it runs to
  its end when called and its promise is rejected with whatever it threw.
  The \<^verbatim>\<open>console.log\<close> of the WAV rendering changes no state and cannot
  throw; it is left out.
\<close>

definition decodeAudioData :: "jsstring \<Rightarrow> real \<Rightarrow> js_error + audio_buffer" where
  "decodeAudioData base64Data rate =
     (case base64ToArrayBuffer base64Data of
        Inl e \<Rightarrow> Inl e
      | Inr buffer \<Rightarrow>
          (case new_Int16Array buffer of
             Inl e \<Rightarrow> Inl e
           | Inr dataInt16 \<Rightarrow>
               (case createBuffer 1 (length dataInt16) rate of
                  Inl e \<Rightarrow> Inl e
                | Inr audioBuffer \<Rightarrow>
                    Inr (audioBuffer\<lparr>channelData :=
                           map (\<lambda>w. real_of_int (sint w) / 32768) dataInt16\<rparr>))))"

section \<open>utils/audio.ts: the recorder worklet\<close>

text \<open>
  \<^verbatim>\<open>RecorderProcessor\<close>: the fields of the constructor, and \<open>port\<close> for the
  chunks given to \<^verbatim>\<open>port.postMessage\<close>, oldest first.
\<close>

record recorder_processor =
  bufferSize :: nat
  buffer :: "real list"
  bufferIndex :: nat
  targetSampleRate :: real
  port :: "real list list"

definition new_RecorderProcessor :: recorder_processor where
  "new_RecorderProcessor =
     \<lparr>bufferSize = 2048, buffer = replicate 2048 0, bufferIndex = 0,
      targetSampleRate = 16000, port = []\<rparr>"

definition flush :: "recorder_processor \<Rightarrow> recorder_processor" where
  "flush p =
     (if 0 < bufferIndex p then
        p\<lparr>port := port p @ [take (bufferIndex p) (buffer p)], bufferIndex := 0\<rparr>
      else p)"

text \<open>
  The loop \<^verbatim>\<open>for (let i = 0; i < channelData.length; i += ratio)\<close>.  It
  does not end when \<open>ratio \<le> 0\<close> and the block is not empty; then the
  result is \<open>None\<close>.  The index \<open>i\<close> starts at 0 and only grows when the
  loop ends at all, so \<^verbatim>\<open>Math.floor(i)\<close> is never negative there.

  The code computes \<open>ratio\<close> and every sum \<open>i + ratio\<close> in doubles.  Here
  they are exact reals, which is what the code computes when the capture
  rate is a multiple \<open>m * 16000\<close> of the target rate and the block length
  plus \<open>m\<close> is at most \<open>2 ^ 53\<close>: then the quotient and every sum are
  integers that a double holds exactly.  At other rates (25600 Hz, 44100
  Hz) the code's sums are rounded and its loop can run one round more than
  this one; nothing is proved about \<open>process\<close> there.
\<close>

partial_function (option) resample_loop ::
  "real \<Rightarrow> real list \<Rightarrow> real \<Rightarrow> recorder_processor \<Rightarrow> recorder_processor option" where
  "resample_loop ratio channel i p =
     (if i < real (length channel) then
        resample_loop ratio channel (i + ratio)
          (let idx = nat \<lfloor>i\<rfloor>
           in if idx < length channel then
                (let p1 = p\<lparr>buffer := (buffer p)[bufferIndex p := channel ! idx],
                             bufferIndex := bufferIndex p + 1\<rparr>
                 in if bufferSize p1 \<le> bufferIndex p1 then flush p1 else p1)
              else p)
      else Some p)"

text \<open>
  \<^verbatim>\<open>process(inputs)\<close>; \<open>currentSampleRate\<close> is the global \<^verbatim>\<open>sampleRate\<close> of
  the worklet scope.
\<close>

definition process ::
  "real \<Rightarrow> real list list list \<Rightarrow> recorder_processor \<Rightarrow> recorder_processor option" where
  "process currentSampleRate inputs p =
     (case inputs of
        [] \<Rightarrow> Some p
      | input # _ \<Rightarrow>
          (case input of
             [] \<Rightarrow> Some p
           | channel # _ \<Rightarrow>
               resample_loop (currentSampleRate / targetSampleRate p) channel 0 p))"

text \<open>
  The samples a processor has taken so far: those posted in chunks and
  those waiting in the accumulation buffer.
\<close>

definition emitted :: "recorder_processor \<Rightarrow> nat" where
  "emitted p = sum_list (map length (port p)) + bufferIndex p"

section \<open>App.tsx: the state of the component\<close>

datatype ConnectionStatus = DISCONNECTED | CONNECTING | CONNECTED | ERROR

datatype Role = User | Model

text \<open>
  \<^verbatim>\<open>TranscriptItem\<close> of types.ts; a
  \<^verbatim>\<open>Date\<close> is its milliseconds.
\<close>

record TranscriptItem =
  item_id :: jsstring
  role :: Role
  item_text :: jsstring
  image :: "jsstring option"
  isFinal :: bool
  timestamp :: nat

definition MAX_RETRIES :: nat where
  "MAX_RETRIES = 3"

text \<open>
  A playback handle (\<^verbatim>\<open>AudioBufferSourceNode\<close>) with the time it was
  started at.  \<^verbatim>\<open>stop()\<close> is modelled as throwing on a handle that no
  longer plays, the case the code's \<^verbatim>\<open>try\<close>/\<^verbatim>\<open>catch\<close> is there for.
\<close>

datatype playback_state = Started | Stopped | Ended

record source_node =
  startAt :: real
  node_buffer :: audio_buffer
  playback :: playback_state

definition node_stop :: "source_node \<Rightarrow> js_error + source_node" where
  "node_stop n =
     (if playback n = Started then Inr (n\<lparr>playback := Stopped\<rparr>)
      else Inl InvalidStateError)"

datatype timer_state = Pending | Fired | Cleared

record timer =
  delay :: nat
  timer_state :: timer_state

datatype audio_context_state = suspended | running | closed

text \<open>A message of the live session, with the fields the handlers read.\<close>

record function_call =
  fc_id :: jsstring
  fc_name :: jsstring
  fc_prompt :: jsstring

record live_message =
  inputTranscription :: "jsstring option"
  outputTranscription :: "jsstring option"
  toolCall :: "function_call list option"
  turnComplete :: bool
  interrupted :: bool
  audioData :: "jsstring option"

text \<open>
  \<^verbatim>\<open>onMessageReceived\<close> is suspended at \<^verbatim>\<open>await generateImageContent(prompt)\<close>;
  what is left of it then is the call waited for, the calls after it and
  the message.
\<close>

datatype continuation = AwaitImage function_call "function_call list" live_message

text \<open>What was handed to the session object.\<close>

datatype outbound =
    RealtimeInput pcm_blob
  | ToolResponse jsstring jsstring "jsstring option"

text \<open>
  The React state and the refs of \<^verbatim>\<open>App\<close> (the presentation state, the
  analyser and the scroll ref are left out), and with them the objects of
  the platform the refs point into: \<open>nodes\<close>, every playback handle
  created, named by its position; \<open>timers\<close>, every timeout set, named
  likewise; \<open>awaiting\<close>, the suspended runs of \<^verbatim>\<open>onMessageReceived\<close>;
  \<open>outbox\<close>, the calls made on the session.  The media stream, the worklet
  node, the source node and the session are opaque.
\<close>

record app =
  status :: ConnectionStatus
  transcripts :: "TranscriptItem list"
  currentInput :: jsstring
  currentOutput :: jsstring
  errorMsg :: "jsstring option"
  globalAudioContextRef :: "audio_context_state option"
  isWorkletLoadedRef :: bool
  sessionRef :: "unit option"
  mediaStreamRef :: "unit option"
  workletNodeRef :: "unit option"
  sourceNodeRef :: "unit option"
  outputAudioContextRef :: "audio_context_state option"
  nextStartTimeRef :: real
  audioSourcesRef :: "nat list"
  currentTurnInputRef :: jsstring
  currentTurnOutputRef :: jsstring
  reconnectTimeoutRef :: "nat option"
  retryCountRef :: nat
  nodes :: "source_node list"
  timers :: "timer list"
  awaiting :: "continuation list"
  outbox :: "outbound list"

definition initial_app :: app where
  "initial_app =
     \<lparr>status = DISCONNECTED, transcripts = [], currentInput = [], currentOutput = [],
      errorMsg = None, globalAudioContextRef = None, isWorkletLoadedRef = False,
      sessionRef = None, mediaStreamRef = None, workletNodeRef = None,
      sourceNodeRef = None, outputAudioContextRef = None, nextStartTimeRef = 0,
      audioSourcesRef = [], currentTurnInputRef = [], currentTurnOutputRef = [],
      reconnectTimeoutRef = None, retryCountRef = 0,
      nodes = [], timers = [], awaiting = [], outbox = []\<rparr>"

text \<open>
  What a handler reads from outside the component: the module constant
  \<^verbatim>\<open>API_KEY\<close>, \<^verbatim>\<open>Date.now()\<close> and the output context's \<^verbatim>\<open>currentTime\<close>.
\<close>

record env =
  api_key :: "jsstring option"
  dateNow :: nat
  currentTime :: real

section \<open>App.tsx: strings\<close>

text \<open>
  \<^verbatim>\<open>String.prototype.trim\<close> removes the white space and line terminators
  of ECMAScript from both ends.
\<close>

definition is_js_whitespace :: "code_unit \<Rightarrow> bool" where
  "is_js_whitespace u \<longleftrightarrow>
     u = 9 \<or> u = 10 \<or> u = 11 \<or> u = 12 \<or> u = 13 \<or> u = 32 \<or> u = 160 \<or> u = 5760 \<or>
     (8192 \<le> u \<and> u \<le> 8202) \<or> u = 8232 \<or> u = 8233 \<or> u = 8239 \<or> u = 8287 \<or>
     u = 12288 \<or> u = 65279"

definition trim :: "jsstring \<Rightarrow> jsstring" where
  "trim s = rev (dropWhile is_js_whitespace (rev (dropWhile is_js_whitespace s)))"

text \<open>A number in a template or a concatenation: its decimal digits.\<close>

fun string_of_nat :: "nat \<Rightarrow> jsstring" where
  "string_of_nat n =
     (if n < 10 then [48 + of_nat n]
      else string_of_nat (n div 10) @ [48 + of_nat (n mod 10)])"

declare string_of_nat.simps [simp del]

section \<open>App.tsx: stopping playback and the session\<close>

text \<open>
  \<^verbatim>\<open>audioSourcesRef.current.forEach(source => { try { source.stop(); } catch (e) {} })\<close>,
  in the order of insertion.
\<close>

fun stop_sources :: "nat list \<Rightarrow> source_node list \<Rightarrow> source_node list" where
  "stop_sources [] ns = ns"
| "stop_sources (i # rest) ns =
     stop_sources rest
       (if i < length ns then
          (case node_stop (ns ! i) of Inl e \<Rightarrow> ns | Inr n \<Rightarrow> ns[i := n])
        else ns)"

text \<open>
  The three statements that stop the output audio, the same in
  \<^verbatim>\<open>stopSession\<close> and in the handler of an interrupted message.
\<close>

definition flushPlayback :: "app \<Rightarrow> app" where
  "flushPlayback s =
     s\<lparr>nodes := stop_sources (audioSourcesRef s) (nodes s),
       audioSourcesRef := [],
       nextStartTimeRef := 0\<rparr>"

definition clearTimeout :: "nat \<Rightarrow> timer list \<Rightarrow> timer list" where
  "clearTimeout t ts =
     (if t < length ts \<and> timer_state (ts ! t) = Pending
      then ts[t := (ts ! t)\<lparr>timer_state := Cleared\<rparr>] else ts)"

text \<open>
  The item literals of \<^verbatim>\<open>stopSession\<close> and of the turn-complete branch:
  the id is \<^verbatim>\<open>Date.now()\<close> followed by a suffix, the item is final and has
  no image.
\<close>

definition final_item :: "env \<Rightarrow> string \<Rightarrow> Role \<Rightarrow> jsstring \<Rightarrow> TranscriptItem" where
  "final_item e suffix r txt =
     \<lparr>item_id = string_of_nat (dateNow e) @ js suffix, role = r, item_text = txt,
      image = None, isFinal = True, timestamp = dateNow e\<rparr>"

text \<open>
  \<^verbatim>\<open>stopSession(fullDisconnect)\<close>.  Its one await, of the suspension of the
  capture context, is taken as returning before anything else runs.
\<close>

definition stopSession :: "env \<Rightarrow> bool \<Rightarrow> app \<Rightarrow> app" where
  "stopSession e fullDisconnect s =
     (let s1 = (case reconnectTimeoutRef s of
                  None \<Rightarrow> s
                | Some t \<Rightarrow> s\<lparr>timers := clearTimeout t (timers s),
                               reconnectTimeoutRef := None\<rparr>);
          s2 = (if mediaStreamRef s1 \<noteq> None then s1\<lparr>mediaStreamRef := None\<rparr> else s1);
          s3 = (if workletNodeRef s2 \<noteq> None then s2\<lparr>workletNodeRef := None\<rparr> else s2);
          s4 = (if sourceNodeRef s3 \<noteq> None then s3\<lparr>sourceNodeRef := None\<rparr> else s3);
          s5 = flushPlayback s4;
          s6 = (if globalAudioContextRef s5 = Some running
                then s5\<lparr>globalAudioContextRef := Some suspended\<rparr> else s5);
          s7 = s6\<lparr>sessionRef := None\<rparr>;
          pendingInput = trim (currentTurnInputRef s7);
          pendingOutput = trim (currentTurnOutputRef s7);
          s8 = (if pendingInput \<noteq> [] \<or> pendingOutput \<noteq> [] then
                  s7\<lparr>transcripts := transcripts s7
                     @ (if pendingInput \<noteq> []
                        then [final_item e ''-saved-input'' User pendingInput] else [])
                     @ (if pendingOutput \<noteq> []
                        then [final_item e ''-saved-output'' Model pendingOutput] else [])\<rparr>
                else s7);
          s9 = s8\<lparr>currentInput := [], currentOutput := [],
                  currentTurnInputRef := [], currentTurnOutputRef := []\<rparr>
      in if fullDisconnect then s9\<lparr>status := DISCONNECTED\<rparr> else s9)"

text \<open>
  The same body in the two parts its await separates: what runs when
  \<^verbatim>\<open>stopSession\<close> is called, and what runs when the suspension of the
  capture context has taken effect.
\<close>

definition stopSession_begin :: "app \<Rightarrow> app" where
  "stopSession_begin s =
     (let s1 = (case reconnectTimeoutRef s of
                  None \<Rightarrow> s
                | Some t \<Rightarrow> s\<lparr>timers := clearTimeout t (timers s),
                               reconnectTimeoutRef := None\<rparr>);
          s2 = (if mediaStreamRef s1 \<noteq> None then s1\<lparr>mediaStreamRef := None\<rparr> else s1);
          s3 = (if workletNodeRef s2 \<noteq> None then s2\<lparr>workletNodeRef := None\<rparr> else s2);
          s4 = (if sourceNodeRef s3 \<noteq> None then s3\<lparr>sourceNodeRef := None\<rparr> else s3)
      in flushPlayback s4)"

definition stopSession_resume :: "env \<Rightarrow> bool \<Rightarrow> app \<Rightarrow> app" where
  "stopSession_resume e fullDisconnect s5 =
     (let s6 = (if globalAudioContextRef s5 = Some running
                then s5\<lparr>globalAudioContextRef := Some suspended\<rparr> else s5);
          s7 = s6\<lparr>sessionRef := None\<rparr>;
          pendingInput = trim (currentTurnInputRef s7);
          pendingOutput = trim (currentTurnOutputRef s7);
          s8 = (if pendingInput \<noteq> [] \<or> pendingOutput \<noteq> [] then
                  s7\<lparr>transcripts := transcripts s7
                     @ (if pendingInput \<noteq> []
                        then [final_item e ''-saved-input'' User pendingInput] else [])
                     @ (if pendingOutput \<noteq> []
                        then [final_item e ''-saved-output'' Model pendingOutput] else [])\<rparr>
                else s7);
          s9 = s8\<lparr>currentInput := [], currentOutput := [],
                  currentTurnInputRef := [], currentTurnOutputRef := []\<rparr>
      in if fullDisconnect then s9\<lparr>status := DISCONNECTED\<rparr> else s9)"

definition handleDisconnect :: "env \<Rightarrow> app \<Rightarrow> app" where
  "handleDisconnect e s = stopSession e True (s\<lparr>retryCountRef := 0\<rparr>)"

section \<open>App.tsx: messages of the session\<close>

definition truthy :: "jsstring option \<Rightarrow> bool" where
  "truthy v = (case v of None \<Rightarrow> False | Some t \<Rightarrow> t \<noteq> [])"

text \<open>
  \<^verbatim>\<open>onMessageReceived\<close>, up to the tool calls: the
  partial texts.
\<close>

definition onMessageReceived_partials :: "live_message \<Rightarrow> app \<Rightarrow> app" where
  "onMessageReceived_partials message s =
     (let s1 = (case inputTranscription message of
                  None \<Rightarrow> s
                | Some inputTxt \<Rightarrow>
                    if inputTxt \<noteq> [] then
                      s\<lparr>currentTurnInputRef := currentTurnInputRef s @ inputTxt,
                        currentInput := currentTurnInputRef s @ inputTxt\<rparr>
                    else s)
      in (case outputTranscription message of
            None \<Rightarrow> s1
          | Some outputTxt \<Rightarrow>
              if outputTxt \<noteq> [] then
                s1\<lparr>currentTurnOutputRef := currentTurnOutputRef s1 @ outputTxt,
                   currentOutput := currentTurnOutputRef s1 @ outputTxt\<rparr>
              else s1))"

text \<open>
  \<^verbatim>\<open>onMessageReceived\<close>, after the tool calls: turn
  complete, interrupted.
\<close>

definition onMessageReceived_turn :: "env \<Rightarrow> live_message \<Rightarrow> app \<Rightarrow> app" where
  "onMessageReceived_turn e message s =
     (let s1 =
        (if turnComplete message then
           (let finalInput = trim (currentTurnInputRef s);
                finalOutput = trim (currentTurnOutputRef s);
                sa = (if finalInput \<noteq> [] then
                        s\<lparr>transcripts := transcripts s
                             @ [final_item e ''-user'' User finalInput],
                          currentTurnInputRef := [], currentInput := []\<rparr>
                      else s);
                sb = (if finalOutput \<noteq> [] then
                        sa\<lparr>transcripts := transcripts sa
                             @ [final_item e ''-model'' Model finalOutput],
                           currentTurnOutputRef := [], currentOutput := []\<rparr>
                      else sa)
            in sb)
         else s)
      in if interrupted message then
           flushPlayback (s1\<lparr>currentTurnOutputRef := [], currentOutput := []\<rparr>)
         else s1)"

text \<open>
  \<^verbatim>\<open>generateImageContent\<close>, before and after its await of the image
  service; \<open>image_outcome\<close> is what the service answered.
\<close>

datatype image_outcome = ImageData jsstring | NoImage | ImageThrows

definition generateImageContent_begin :: "env \<Rightarrow> jsstring \<Rightarrow> app \<Rightarrow> app" where
  "generateImageContent_begin e prompt s =
     (if \<not> truthy (api_key e) then s
      else s\<lparr>transcripts := transcripts s @
             [\<lparr>item_id = string_of_nat (dateNow e) @ js ''-generating'', role = Model,
               item_text = js ''Generating image: '' @ [34] @ prompt @ [34] @ js ''...'',
               image = None, isFinal = True, timestamp = dateNow e\<rparr>]\<rparr>)"

definition generateImageContent_end ::
  "env \<Rightarrow> image_outcome \<Rightarrow> jsstring \<Rightarrow> app \<Rightarrow> app \<times> jsstring option" where
  "generateImageContent_end e outcome prompt s =
     (if \<not> truthy (api_key e) then (s, None)
      else (case outcome of
              ImageThrows \<Rightarrow> (s, Some (js ''Error occurred while generating image.''))
            | NoImage \<Rightarrow> (s, Some (js ''Failed to generate image.''))
            | ImageData imageBase64 \<Rightarrow>
                if imageBase64 \<noteq> [] then
                  (s\<lparr>transcripts := transcripts s @
                      [\<lparr>item_id = string_of_nat (dateNow e) @ js ''-image'', role = Model,
                        item_text = js ''Here is an image of: '' @ prompt,
                        image = Some (js ''data:image/png;base64,'' @ imageBase64),
                        isFinal = True, timestamp = dateNow e\<rparr>]\<rparr>,
                   Some (js ''Image generated successfully and displayed to the user.''))
                else (s, Some (js ''Failed to generate image.''))))"

text \<open>
  The loop over the function calls: it runs to the first
  \<^verbatim>\<open>render_image\<close> call and is suspended there, or runs out and goes
  on to the rest of the handler.
\<close>

fun onMessageReceived_toolCalls ::
  "env \<Rightarrow> function_call list \<Rightarrow> live_message \<Rightarrow> app \<Rightarrow> app" where
  "onMessageReceived_toolCalls e [] message s = onMessageReceived_turn e message s"
| "onMessageReceived_toolCalls e (fc # fcs) message s =
     (if fc_name fc = js ''render_image'' then
        (let s1 = generateImageContent_begin e (fc_prompt fc) s
         in s1\<lparr>awaiting := awaiting s1 @ [AwaitImage fc fcs message]\<rparr>)
      else onMessageReceived_toolCalls e fcs message s)"

definition onMessageReceived :: "env \<Rightarrow> live_message \<Rightarrow> app \<Rightarrow> app" where
  "onMessageReceived e message s =
     onMessageReceived_toolCalls e
       (case toolCall message of None \<Rightarrow> [] | Some fcs \<Rightarrow> fcs)
       message (onMessageReceived_partials message s)"

text \<open>The image service answers: the \<open>k\<close>-th suspended run goes on.\<close>

definition image_ready :: "env \<Rightarrow> nat \<Rightarrow> image_outcome \<Rightarrow> app \<Rightarrow> app" where
  "image_ready e k outcome s =
     (if k < length (awaiting s) then
        (case awaiting s ! k of
           AwaitImage fc fcs message \<Rightarrow>
             (let s0 = s\<lparr>awaiting := take k (awaiting s) @ drop (Suc k) (awaiting s)\<rparr>;
                  (s1, result) = generateImageContent_end e outcome (fc_prompt fc) s0;
                  s2 = (if sessionRef s1 \<noteq> None then
                          s1\<lparr>outbox := outbox s1
                               @ [ToolResponse (fc_id fc) (fc_name fc) result]\<rparr>
                        else s1)
              in onMessageReceived_toolCalls e fcs message s2))
      else s)"

section \<open>App.tsx: playback of the inbound audio\<close>

text \<open>
  The callback of \<^verbatim>\<open>decodeAudioData(...).then\<close>: a new handle is started at
  \<open>startTime\<close>, the next start time moves behind it, the handle joins the
  live set.
\<close>

definition set_add :: "nat \<Rightarrow> nat list \<Rightarrow> nat list" where
  "set_add x xs = (if x \<in> set xs then xs else xs @ [x])"

definition schedule :: "real \<Rightarrow> audio_buffer \<Rightarrow> app \<Rightarrow> app" where
  "schedule startTime b s =
     s\<lparr>nodes := nodes s @ [\<lparr>startAt = startTime, node_buffer = b, playback = Started\<rparr>],
       nextStartTimeRef := startTime + duration b,
       audioSourcesRef := set_add (length (nodes s)) (audioSourcesRef s)\<rparr>"

text \<open>
  The \<^verbatim>\<open>onmessage\<close> callback.  \<^verbatim>\<open>decodeAudioData\<close> has no await, so its
  promise is settled when it returns and the \<^verbatim>\<open>then\<close> or the \<^verbatim>\<open>catch\<close>
  callback runs before the next message is delivered.
\<close>

definition onmessage :: "env \<Rightarrow> live_message \<Rightarrow> app \<Rightarrow> app" where
  "onmessage e msg s =
     (let s1 = onMessageReceived e msg s
      in (case audioData msg of
            None \<Rightarrow> s1
          | Some base64Audio \<Rightarrow>
              if base64Audio \<noteq> [] \<and> outputAudioContextRef s1 \<noteq> None then
                (let startTime = max (nextStartTimeRef s1) (currentTime e)
                 in (case decodeAudioData base64Audio 24000 of
                       Inl err \<Rightarrow> s1
                     | Inr b \<Rightarrow> schedule startTime b s1))
              else s1))"

text \<open>
  A handle's \<^verbatim>\<open>onended\<close>: it has played to its end
  or was stopped.
\<close>

definition node_ended :: "nat \<Rightarrow> app \<Rightarrow> app" where
  "node_ended i s =
     s\<lparr>nodes := (if i < length (nodes s) \<and> playback (nodes s ! i) = Started
                  then (nodes s)[i := (nodes s ! i)\<lparr>playback := Ended\<rparr>] else nodes s),
       audioSourcesRef := removeAll i (audioSourcesRef s)\<rparr>"

text \<open>
  The \<^verbatim>\<open>port.onmessage\<close> of the worklet node: a
  chunk to send.
\<close>

definition worklet_onmessage :: "real list \<Rightarrow> app \<Rightarrow> app" where
  "worklet_onmessage inputData s =
     (if sessionRef s = None then s
      else (case createPcmBlob inputData of
              Inl err \<Rightarrow> s
            | Inr pcmBlob \<Rightarrow> s\<lparr>outbox := outbox s @ [RealtimeInput pcmBlob]\<rparr>))"

section \<open>App.tsx: starting, errors and retries\<close>

text \<open>
  How far \<^verbatim>\<open>startSession\<close> gets: the audio contexts fail, the microphone
  is refused, building the graph or the client throws, or the connection
  is requested.  The string is the \<^verbatim>\<open>message\<close> of what was thrown.
\<close>

datatype start_outcome =
    AudioContextFails jsstring
  | MicrophoneFails jsstring
  | GraphFails jsstring
  | Connects

definition acquire_contexts :: "app \<Rightarrow> app" where
  "acquire_contexts s =
     s\<lparr>globalAudioContextRef :=
         (case globalAudioContextRef s of
            None \<Rightarrow> Some running
          | Some st \<Rightarrow> if st = suspended then Some running else Some st),
       outputAudioContextRef := Some running,
       isWorkletLoadedRef := True\<rparr>"

definition build_graph :: "app \<Rightarrow> app" where
  "build_graph s =
     s\<lparr>mediaStreamRef := Some (), sourceNodeRef := Some (), workletNodeRef := Some ()\<rparr>"

definition start_failed :: "env \<Rightarrow> jsstring \<Rightarrow> app \<Rightarrow> app" where
  "start_failed e msg s =
     stopSession e False
       (s\<lparr>errorMsg := Some (if msg \<noteq> [] then msg
                              else js ''Failed to access microphone or connect.''),
          status := ERROR\<rparr>)"

definition startSession :: "env \<Rightarrow> start_outcome \<Rightarrow> app \<Rightarrow> app" where
  "startSession e outcome s =
     (if \<not> truthy (api_key e) then
        s\<lparr>errorMsg := Some (js ''API Key is missing in environment variables.'')\<rparr>
      else
        (let s1 = s\<lparr>errorMsg := None, status := CONNECTING\<rparr>
         in (case outcome of
               AudioContextFails msg \<Rightarrow> start_failed e msg s1
             | MicrophoneFails msg \<Rightarrow> start_failed e msg (acquire_contexts s1)
             | GraphFails msg \<Rightarrow> start_failed e msg (build_graph (acquire_contexts s1))
             | Connects \<Rightarrow> build_graph (acquire_contexts s1))))"

definition onopen :: "app \<Rightarrow> app" where
  "onopen s = s\<lparr>status := CONNECTED, sessionRef := Some (), retryCountRef := 0\<rparr>"

text \<open>
  \<^verbatim>\<open>onclose\<close> reads the \<^verbatim>\<open>status\<close> its closure captured when
  \<^verbatim>\<open>startSession\<close> was created, not the current one.
\<close>

definition onclose :: "env \<Rightarrow> ConnectionStatus \<Rightarrow> app \<Rightarrow> app" where
  "onclose e captured s = (if captured \<noteq> DISCONNECTED then stopSession e True s else s)"

text \<open>
  What \<^verbatim>\<open>onerror\<close> is called with: an
  \<^verbatim>\<open>Error\<close> and its message, or not one.
\<close>

datatype thrown = ErrorObject jsstring | OtherValue

definition setTimeout :: "nat \<Rightarrow> app \<Rightarrow> app" where
  "setTimeout ms s =
     s\<lparr>timers := timers s @ [\<lparr>delay = ms, timer_state = Pending\<rparr>],
       reconnectTimeoutRef := Some (length (timers s))\<rparr>"

text \<open>
  \<^verbatim>\<open>err instanceof Error ? err.message : "Connection
  lost"\<close>
\<close>

definition thrown_message :: "thrown \<Rightarrow> jsstring" where
  "thrown_message err =
     (case err of ErrorObject m \<Rightarrow> m | OtherValue \<Rightarrow> js ''Connection lost'')"

definition onerror :: "env \<Rightarrow> thrown \<Rightarrow> app \<Rightarrow> app" where
  "onerror e err s =
     (let message = thrown_message err
      in if retryCountRef s < MAX_RETRIES then
           (let nextRetry = retryCountRef s + 1;
                s1 = s\<lparr>status := CONNECTING,
                       errorMsg := Some (js ''Connection lost. Reconnecting (''
                         @ string_of_nat nextRetry @ js ''/'' @ string_of_nat MAX_RETRIES
                         @ js '')...''),
                       retryCountRef := nextRetry\<rparr>
            in setTimeout 2000 (stopSession e False s1))
         else
           stopSession e False
             (s\<lparr>errorMsg := Some (message @ js '' (Max retries reached)''),
                status := ERROR\<rparr>))"

text \<open>
  A pending timeout fires: its callback calls
  \<^verbatim>\<open>startSession\<close>.
\<close>

definition timer_fires :: "env \<Rightarrow> nat \<Rightarrow> start_outcome \<Rightarrow> app \<Rightarrow> app" where
  "timer_fires e t outcome s =
     (if t < length (timers s) \<and> timer_state (timers s ! t) = Pending then
        startSession e outcome
          (s\<lparr>timers := (timers s)[t := (timers s ! t)\<lparr>timer_state := Fired\<rparr>]\<rparr>)
      else s)"

section \<open>The component as a transition system\<close>

datatype event =
    StartClicked start_outcome
  | DisconnectClicked
  | OnOpen
  | OnMessage live_message
  | OnClose ConnectionStatus
  | OnError thrown
  | TimerFires nat start_outcome
  | NodeEnded nat
  | ImageReady nat image_outcome
  | WorkletChunk "real list"

fun step :: "env \<Rightarrow> event \<Rightarrow> app \<Rightarrow> app" where
  "step e (StartClicked outcome) s = startSession e outcome s"
| "step e DisconnectClicked s = handleDisconnect e s"
| "step e OnOpen s = onopen s"
| "step e (OnMessage msg) s = onmessage e msg s"
| "step e (OnClose captured) s = onclose e captured s"
| "step e (OnError err) s = onerror e err s"
| "step e (TimerFires t outcome) s = timer_fires e t outcome s"
| "step e (NodeEnded i) s = node_ended i s"
| "step e (ImageReady k outcome) s = image_ready e k outcome s"
| "step e (WorkletChunk inputData) s = worklet_onmessage inputData s"

fun run :: "(env \<times> event) list \<Rightarrow> app \<Rightarrow> app" where
  "run [] s = s"
| "run ((e, ev) # rest) s = run rest (step e ev s)"

text \<open>
  The messages of a session, delivered to
  \<^verbatim>\<open>onmessage\<close> one after the other.
\<close>

fun deliver :: "(env \<times> live_message) list \<Rightarrow> app \<Rightarrow> app" where
  "deliver [] s = s"
| "deliver ((e, msg) # rest) s = deliver rest (onmessage e msg s)"

section \<open>Auxiliary definitions\<close>

text \<open>The six-bit groups of a byte sequence, as \<open>b64_encode\<close> forms them.\<close>

fun sextets :: "byte list \<Rightarrow> nat list" where
  "sextets (a # b # c # rest) =
     [unat a div 4, (unat a mod 4) * 16 + unat b div 16,
      (unat b mod 16) * 4 + unat c div 64, unat c mod 64] @ sextets rest"
| "sextets [a, b] =
     [unat a div 4, (unat a mod 4) * 16 + unat b div 16, (unat b mod 16) * 4]"
| "sextets [a] = [unat a div 4, (unat a mod 4) * 16]"
| "sextets [] = []"

text \<open>
  What the constructor of the recorder establishes and \<open>process\<close> keeps:
  the write index stays inside the accumulation buffer.
\<close>

definition rec_inv :: "recorder_processor \<Rightarrow> bool" where
  "rec_inv p \<longleftrightarrow> bufferIndex p < bufferSize p \<and> length (buffer p) = bufferSize p"

definition recorder_ok :: "recorder_processor \<Rightarrow> bool" where
  "recorder_ok p \<longleftrightarrow>
     bufferSize p = 2048 \<and> length (buffer p) = 2048 \<and> bufferIndex p < 2048 \<and>
     targetSampleRate p = 16000"

text \<open>One round of the loop's body at a sample \<open>x\<close>.\<close>

definition take_sample :: "real \<Rightarrow> recorder_processor \<Rightarrow> recorder_processor" where
  "take_sample x p =
     (let p1 = p\<lparr>buffer := (buffer p)[bufferIndex p := x], bufferIndex := bufferIndex p + 1\<rparr>
      in if bufferSize p1 \<le> bufferIndex p1 then flush p1 else p1)"

text \<open>
  Messages for stating properties: one with no field set, one that carries
  only an audio frame.
\<close>

definition empty_message :: live_message where
  "empty_message =
     \<lparr>inputTranscription = None, outputTranscription = None, toolCall = None,
      turnComplete = False, interrupted = False, audioData = None\<rparr>"

definition audio_message :: "jsstring \<Rightarrow> live_message" where
  "audio_message frame = empty_message\<lparr>audioData := Some frame\<rparr>"

text \<open>The time at which a playback handle runs out of samples.\<close>

definition end_time :: "source_node \<Rightarrow> real" where
  "end_time n = startAt n + duration (node_buffer n)"

text \<open>
  Handles in the order of their creation follow one another without
  overlap, and the last of them ends by the time \<open>t\<close>.
\<close>

definition chained :: "source_node list \<Rightarrow> real \<Rightarrow> bool" where
  "chained ns t \<longleftrightarrow>
     successively (\<lambda>a b. end_time a \<le> startAt b) ns \<and>
     (ns = [] \<or> end_time (last ns) \<le> t)"

section \<open>The base64 functions are inverse on byte sequences\<close>

lemma index_of_nth:
  "distinct xs \<Longrightarrow> n < length xs \<Longrightarrow> index_of (xs ! n) xs = Some n"
proof (induction xs arbitrary: n)
  case Nil
  then show ?case by simp
next
  case (Cons x xs)
  show ?case
  proof (cases n)
    case 0
    then show ?thesis by simp
  next
    case (Suc m)
    with Cons.prems have "xs ! m \<noteq> x" "index_of (xs ! m) xs = Some m"
      using Cons.IH [of m] by auto
    with Suc show ?thesis by simp
  qed
qed

lemma length_b64_alphabet: "length b64_alphabet = 64"
  by (simp add: b64_alphabet_def js_def)

lemma distinct_b64_alphabet: "distinct b64_alphabet"
  by (simp add: b64_alphabet_def js_def)

lemma b64_alphabet_plain:
  "c \<in> set b64_alphabet \<Longrightarrow> \<not> is_ascii_whitespace c \<and> c \<noteq> pad_char"
  by (auto simp: b64_alphabet_def js_def is_ascii_whitespace_def pad_char_def)

lemma b64_index_char: "n < 64 \<Longrightarrow> b64_index (b64_char n) = Some n"
  by (simp add: b64_index_def b64_char_def index_of_nth distinct_b64_alphabet
      length_b64_alphabet)

lemma b64_char_plain:
  "n < 64 \<Longrightarrow> \<not> is_ascii_whitespace (b64_char n) \<and> b64_char n \<noteq> pad_char"
  by (rule b64_alphabet_plain) (simp add: b64_char_def length_b64_alphabet)

lemma ucast_byte_roundtrip: "(ucast (ucast (b :: byte) :: code_unit) :: byte) = b"
  by (rule ucast_up_ucast_id) (simp add: is_up)

lemma unat_ucast_byte: "unat (ucast (b :: byte) :: code_unit) = unat b"
  by (simp add: unsigned_ucast_eq take_bit_eq_mod) (use unsigned_less [of b, where ?'a = nat] in simp)

lemma ucast_byte_le: "\<not> 255 < (ucast (b :: byte) :: code_unit)"
proof -
  have "unat b < 256" using unsigned_less [of b, where ?'a = nat] by simp
  then show ?thesis by (simp add: word_less_nat_alt unat_ucast_byte)
qed

lemma sextet_bounds:
  "unat (a::byte) div 4 < 64"
  "(unat (a::byte) mod 4) * 16 + unat (b::byte) div 16 < 64"
  "(unat (b::byte) mod 16) * 4 + unat (c::byte) div 64 < 64"
  "unat (c::byte) mod 64 < 64"
  "(unat (a::byte) mod 4) * 16 < 64"
  "(unat (b::byte) mod 16) * 4 < 64"
  using unsigned_less [of a, where ?'a = nat] unsigned_less [of b, where ?'a = nat] unsigned_less [of c, where ?'a = nat] by simp_all

lemma byte_of_sextets:
  fixes a b c :: byte
  shows "of_nat (unat a div 4 * 4 + ((unat a mod 4) * 16 + unat b div 16) div 16) = a"
    and "of_nat ((((unat a mod 4) * 16 + unat b div 16) mod 16) * 16
           + ((unat b mod 16) * 4 + unat c div 64) div 4) = b"
    and "of_nat ((((unat b mod 16) * 4 + unat c div 64) mod 4) * 64 + unat c mod 64) = c"
    and "of_nat (unat a div 4 * 4 + ((unat a mod 4) * 16) div 16) = a"
    and "of_nat ((((unat a mod 4) * 16 + unat b div 16) mod 16) * 16
           + ((unat b mod 16) * 4) div 4) = b"
proof -
  have A: "unat a < 256" "unat b < 256" "unat c < 256"
    using unsigned_less [of a, where ?'a = nat] unsigned_less [of b, where ?'a = nat] unsigned_less [of c, where ?'a = nat] by simp_all
  have 1: "unat a div 4 * 4 + ((unat a mod 4) * 16 + unat b div 16) div 16 = unat a"
    using A by simp
  have 2: "(((unat a mod 4) * 16 + unat b div 16) mod 16) * 16
           + ((unat b mod 16) * 4 + unat c div 64) div 4 = unat b"
    using A by simp
  have 3: "(((unat b mod 16) * 4 + unat c div 64) mod 4) * 64 + unat c mod 64 = unat c"
    using A by simp
  have 4: "unat a div 4 * 4 + ((unat a mod 4) * 16) div 16 = unat a"
    by simp
  have 5: "(((unat a mod 4) * 16 + unat b div 16) mod 16) * 16
           + ((unat b mod 16) * 4) div 4 = unat b"
    using A by simp
  show "of_nat (unat a div 4 * 4 + ((unat a mod 4) * 16 + unat b div 16) div 16) = a"
    by (simp only: 1) simp
  show "of_nat ((((unat a mod 4) * 16 + unat b div 16) mod 16) * 16
           + ((unat b mod 16) * 4 + unat c div 64) div 4) = b"
    by (simp only: 2) simp
  show "of_nat ((((unat b mod 16) * 4 + unat c div 64) mod 4) * 64 + unat c mod 64) = c"
    by (simp only: 3) simp
  show "of_nat (unat a div 4 * 4 + ((unat a mod 4) * 16) div 16) = a"
    by (simp only: 4) simp
  show "of_nat ((((unat a mod 4) * 16 + unat b div 16) mod 16) * 16
           + ((unat b mod 16) * 4) div 4) = b"
    by (simp only: 5) simp
qed

lemma sextets_lt: "x \<in> set (sextets bs) \<Longrightarrow> x < 64"
  by (induction bs arbitrary: x rule: sextets.induct) (auto simp: sextet_bounds)

lemma b64_bytes_sextets: "b64_bytes (sextets bs) = bs"
  by (induction bs rule: sextets.induct)
    (simp_all only: sextets.simps b64_bytes.simps append_Cons append_Nil byte_of_sextets)

lemma length_sextets_mod: "length (sextets bs) mod 4 \<noteq> Suc 0"
  by (induction bs rule: sextets.induct) simp_all

lemma length_b64_encode: "length (b64_encode bs) mod 4 = 0"
  by (induction bs rule: b64_encode.induct) simp_all

lemma strip_padding_append:
  assumes "length xs mod 4 = 0" "length ys mod 4 = 0" "ys \<noteq> []"
  shows "strip_padding (xs @ ys) = xs @ strip_padding ys"
proof -
  from assms have "length ys \<noteq> 0" by simp
  with assms(2) have "4 \<le> length ys" by arith
  then have b: "butlast ys \<noteq> []" by (cases ys rule: rev_cases) auto
  from assms have l: "length (xs @ ys) mod 4 = 0" by (simp add: mod_add_eq [symmetric] )
  show ?thesis
    using assms b l by (simp add: strip_padding_def Let_def butlast_append)
qed

lemma strip_padding_encode:
  "strip_padding (b64_encode bs) = map b64_char (sextets bs)"
proof (induction bs rule: b64_encode.induct)
  case (1 a b c rest)
  show ?case
  proof (cases "rest = []")
    case True
    then show ?thesis
      using b64_char_plain [of "unat c mod 64"]
      by (simp add: strip_padding_def sextet_bounds)
  next
    case False
    then have ne: "b64_encode rest \<noteq> []" by (cases rest rule: b64_encode.cases) auto
    have "strip_padding ([b64_char (unat a div 4),
      b64_char ((unat a mod 4) * 16 + unat b div 16),
      b64_char ((unat b mod 16) * 4 + unat c div 64),
      b64_char (unat c mod 64)] @ b64_encode rest) = [b64_char (unat a div 4),
      b64_char ((unat a mod 4) * 16 + unat b div 16),
      b64_char ((unat b mod 16) * 4 + unat c div 64),
      b64_char (unat c mod 64)] @ strip_padding (b64_encode rest)"
      by (rule strip_padding_append) (simp_all add: length_b64_encode ne)
    then show ?thesis using 1 by simp
  qed
next
  case (2 a b)
  show ?case
    using b64_char_plain [of "(unat b mod 16) * 4"]
    by (simp add: strip_padding_def sextet_bounds)
next
  case (3 a)
  show ?case
    using b64_char_plain [of "(unat a mod 4) * 16"]
    by (simp add: strip_padding_def sextet_bounds)
next
  case 4
  show ?case by (simp add: strip_padding_def)
qed

lemma b64_encode_chars:
  "u \<in> set (b64_encode bs) \<Longrightarrow> u = pad_char \<or> (\<exists>n<64. u = b64_char n)"
  by (induction bs arbitrary: u rule: b64_encode.induct)
    (auto intro: sextet_bounds)

lemma b64_encode_plain:
  "u \<in> set (b64_encode bs) \<Longrightarrow> \<not> is_ascii_whitespace u"
  using b64_encode_chars [of u bs] b64_char_plain
  by (auto simp: is_ascii_whitespace_def pad_char_def)

lemma those_b64_index:
  "(\<And>x. x \<in> set sx \<Longrightarrow> x < 64) \<Longrightarrow> those (map (b64_index \<circ> b64_char) sx) = Some sx"
  by (induction sx) (simp_all add: b64_index_char)

lemma atob_b64_encode: "atob (b64_encode bs) = Inr (map ucast bs)"
proof -
  have f: "filter (\<lambda>u. \<not> is_ascii_whitespace u) (b64_encode bs) = b64_encode bs"
    by (simp add: filter_id_conv b64_encode_plain)
  show ?thesis
    by (simp add: atob_def f strip_padding_encode length_sextets_mod
        those_b64_index sextets_lt b64_bytes_sextets)
qed

lemma btoa_bytes: "btoa (map ucast (bs :: byte list)) = Inr (b64_encode bs)"
  by (simp add: btoa_def ucast_byte_le ucast_byte_roundtrip o_def)

lemma base64_roundtrip:
  "\<exists>s. arrayBufferToBase64 b = Inr s \<and> base64ToArrayBuffer s = Inr b"
  by (simp add: arrayBufferToBase64_def base64ToArrayBuffer_def btoa_bytes
      atob_b64_encode ucast_byte_roundtrip o_def)

section \<open>PCM samples\<close>

lemma int16_of_bytes_roundtrip: "int16_of_bytes (int16_buffer ws) = ws"
proof (induction ws)
  case Nil
  then show ?case by (simp add: int16_buffer_def)
next
  case (Cons w ws)
  have "(ucast (ucast w :: byte) :: int16) OR push_bit 8 (ucast (ucast (drop_bit 8 w) :: byte)) = w"
    by (rule bit_word_eqI) (auto simp: bit_simps)
  with Cons show ?case by (simp add: int16_buffer_def int16_bytes_def)
qed

lemma length_int16_buffer: "length (int16_buffer ws) = 2 * length ws"
  by (induction ws) (simp_all add: int16_buffer_def int16_bytes_def)

lemma sint_int16: "- 32768 \<le> k \<Longrightarrow> k < 32768 \<Longrightarrow> sint (word_of_int k :: int16) = k"
  by (simp add: sint_sbintrunc' signed_take_bit_int_eq_self)

lemma pcm_nonneg:
  assumes "0 \<le> x" "x \<le> 1"
  shows "sint (pcm_sample x) = \<lfloor>x * 32767\<rfloor>"
    and "0 \<le> x - real_of_int (sint (pcm_sample x)) / 32768"
    and "x - real_of_int (sint (pcm_sample x)) / 32768 < 1 / 16384"
proof -
  let ?k = "\<lfloor>x * 32767\<rfloor>"
  have k0: "0 \<le> ?k" using assms by simp
  have "x * 32767 \<le> 32767" using assms by simp
  then have k1: "?k \<le> 32767" by (simp add: floor_le_iff) 
  have p: "pcm_sample x = word_of_int ?k"
    using assms by (simp add: pcm_sample_def to_int16_def Let_def min_def max_def)
  show s: "sint (pcm_sample x) = ?k"
    using k0 k1 by (simp add: p sint_int16)
  have le: "real_of_int ?k \<le> x * 32767" by linarith
  have gt: "x * 32767 < real_of_int ?k + 1" by linarith
  show "0 \<le> x - real_of_int (sint (pcm_sample x)) / 32768"
    using le assms by (simp add: s field_simps) linarith
  show "x - real_of_int (sint (pcm_sample x)) / 32768 < 1 / 16384"
    using gt assms by (simp add: s field_simps) linarith?
qed

lemma pcm_neg:
  assumes "x < 0" "- 1 \<le> x"
  shows "sint (pcm_sample x) = \<lceil>x * 32768\<rceil>"
    and "0 \<le> real_of_int (sint (pcm_sample x)) / 32768 - x"
    and "real_of_int (sint (pcm_sample x)) / 32768 - x < 1 / 32768"
proof -
  let ?k = "\<lceil>x * 32768\<rceil>"
  have k0: "?k \<le> 0" using assms by (simp add: ceiling_le_iff)
  have "- 32768 \<le> x * 32768" using assms by simp
  then have k1: "- 32768 \<le> ?k" by (simp add: le_ceiling_iff)
  have p: "pcm_sample x = word_of_int ?k"
    using assms by (simp add: pcm_sample_def to_int16_def Let_def min_def max_def)
  show s: "sint (pcm_sample x) = ?k"
    using k0 k1 by (simp add: p sint_int16)
  have ge: "x * 32768 \<le> real_of_int ?k" by linarith
  have lt: "real_of_int ?k < x * 32768 + 1" by linarith
  show "0 \<le> real_of_int (sint (pcm_sample x)) / 32768 - x"
    using ge by (simp add: s)
  show "real_of_int (sint (pcm_sample x)) / 32768 - x < 1 / 32768"
    using lt by (simp add: s)
qed

lemma decode_createPcmBlob:
  assumes "xs \<noteq> []" "0 < rate"
  shows "\<exists>blob. createPcmBlob xs = Inr blob \<and>
           decodeAudioData (data blob) rate =
             Inr \<lparr>numberOfChannels = 1, sampleRate = rate,
                  channelData = map (\<lambda>x. real_of_int (sint (pcm_sample x)) / 32768) xs\<rparr>"
  using assms
  by (simp add: createPcmBlob_def arrayBufferToBase64_def btoa_bytes decodeAudioData_def
      base64ToArrayBuffer_def atob_b64_encode ucast_byte_roundtrip o_def
      new_Int16Array_def length_int16_buffer int16_of_bytes_roundtrip createBuffer_def)

text \<open>
  Claim C10.  The transport text encoding round-trips: for every byte
  buffer \<open>b\<close>, \<open>arrayBufferToBase64\<close> returns a string (it never throws) and
  \<open>base64ToArrayBuffer\<close> of that string is \<open>b\<close> again, byte for byte.
  Consequently the payload of every outbound PCM chunk of \<open>n\<close> samples
  decodes back to exactly \<open>2 * n\<close> bytes.
\<close>

theorem transport_encoding_roundtrip:
  "(\<exists>base64. arrayBufferToBase64 b = Inr base64 \<and> base64ToArrayBuffer base64 = Inr b) \<and>
   (\<exists>blob bytes. createPcmBlob samples = Inr blob \<and>
      base64ToArrayBuffer (data blob) = Inr bytes \<and>
      length bytes = 2 * length samples)"
proof
  show "\<exists>base64. arrayBufferToBase64 b = Inr base64 \<and> base64ToArrayBuffer base64 = Inr b"
    by (rule base64_roundtrip)
next
  let ?bytes = "int16_buffer (map pcm_sample samples)"
  from base64_roundtrip [of ?bytes]
  obtain base64 where e: "arrayBufferToBase64 ?bytes = Inr base64"
    and d: "base64ToArrayBuffer base64 = Inr ?bytes"
    by blast
  have "createPcmBlob samples = Inr \<lparr>data = base64, mimeType = js ''audio/pcm;rate=16000''\<rparr>"
    by (simp add: createPcmBlob_def e)
  moreover have "length ?bytes = 2 * length samples"
    by (simp add: length_int16_buffer)
  ultimately show "\<exists>blob bytes. createPcmBlob samples = Inr blob \<and>
      base64ToArrayBuffer (data blob) = Inr bytes \<and> length bytes = 2 * length samples"
    using d by simp
qed

lemma pcm_sample_clamp: "pcm_sample x = pcm_sample (max (- 1) (min 1 x))"
  by (simp add: pcm_sample_def Let_def)

lemma pcm_sample_no_overflow:
  "sint (pcm_sample x) =
     (let s = max (- 1) (min 1 x) in if s < 0 then \<lceil>s * 32768\<rceil> else \<lfloor>s * 32767\<rfloor>)"
proof -
  let ?s = "max (- 1) (min 1 x)"
  have r: "- 1 \<le> ?s" "?s \<le> 1" by simp_all
  show ?thesis
  proof (cases "?s < 0")
    case True
    from pcm_neg(1) [OF True r(1)] True show ?thesis
      using pcm_sample_clamp [of x] by (simp add: Let_def)
  next
    case False
    then have "0 \<le> ?s" by simp
    from pcm_nonneg(1) [OF this r(2)] False show ?thesis
      using pcm_sample_clamp [of x] by (simp add: Let_def)
  qed
qed

lemma pcm_extremes: "sint (pcm_sample 1) = 32767" "sint (pcm_sample (- 1)) = - 32768"
  by (simp_all add: pcm_sample_no_overflow)

text \<open>
  Claim C6, as amended.  For every non-empty sequence of samples in
  \<open>[-1, 1]\<close>, encoding with \<open>createPcmBlob\<close> and decoding with
  \<open>decodeAudioData\<close> succeeds and gives one value per sample.  A negative
  sample \<open>x\<close> comes back as \<open>y\<close> with \<open>0 \<le> y - x < 1/32768\<close>; a
  non-negative sample, scaled by 32767 on the way in and divided by 32768
  on the way out, comes back with \<open>0 \<le> x - y < 1/16384\<close>.  The extremes
  \<open>+1\<close> and \<open>-1\<close> encode to 32767 and -32768, inside the signed 16-bit
  range.
\<close>

theorem pcm_roundtrip_error:
  assumes "xs \<noteq> []" and "\<forall>x \<in> set xs. - 1 \<le> x \<and> x \<le> 1"
  shows "\<exists>blob b. createPcmBlob xs = Inr blob \<and>
           decodeAudioData (data blob) 24000 = Inr b \<and>
           length (channelData b) = length xs \<and>
           (\<forall>i < length xs.
              (0 \<le> xs ! i \<longrightarrow>
                 0 \<le> xs ! i - channelData b ! i \<and> xs ! i - channelData b ! i < 1 / 16384) \<and>
              (xs ! i < 0 \<longrightarrow>
                 0 \<le> channelData b ! i - xs ! i \<and> channelData b ! i - xs ! i < 1 / 32768)) \<and>
           sint (pcm_sample 1) = 32767 \<and> sint (pcm_sample (- 1)) = - 32768"
proof -
  from decode_createPcmBlob [OF assms(1), of 24000]
  obtain blob where b: "createPcmBlob xs = Inr blob"
    and d: "decodeAudioData (data blob) 24000 =
             Inr \<lparr>numberOfChannels = 1, sampleRate = 24000,
                  channelData = map (\<lambda>x. real_of_int (sint (pcm_sample x)) / 32768) xs\<rparr>"
    by auto
  let ?b = "\<lparr>numberOfChannels = 1, sampleRate = 24000,
              channelData = map (\<lambda>x. real_of_int (sint (pcm_sample x)) / 32768) xs\<rparr>"
  have "\<forall>i < length xs.
          (0 \<le> xs ! i \<longrightarrow>
             0 \<le> xs ! i - channelData ?b ! i \<and> xs ! i - channelData ?b ! i < 1 / 16384) \<and>
          (xs ! i < 0 \<longrightarrow>
             0 \<le> channelData ?b ! i - xs ! i \<and> channelData ?b ! i - xs ! i < 1 / 32768)"
  proof (intro allI impI)
    fix i assume i: "i < length xs"
    then have r: "- 1 \<le> xs ! i" "xs ! i \<le> 1" using assms(2) by auto
    show "(0 \<le> xs ! i \<longrightarrow>
             0 \<le> xs ! i - channelData ?b ! i \<and> xs ! i - channelData ?b ! i < 1 / 16384) \<and>
          (xs ! i < 0 \<longrightarrow>
             0 \<le> channelData ?b ! i - xs ! i \<and> channelData ?b ! i - xs ! i < 1 / 32768)"
      using i r pcm_nonneg(2,3) [of "xs ! i"] pcm_neg(2,3) [of "xs ! i"] by simp
  qed
  then show ?thesis
    using b d pcm_extremes by (intro exI [of _ blob] exI [of _ ?b]) simp
qed

text \<open>
  The theorem at the samples \<open>1\<close>, \<open>-1\<close> and
  \<open>3/4\<close>.
\<close>

theorem pcm_roundtrip_error_witness:
  "\<exists>blob b. createPcmBlob [1, - 1, 3 / 4] = Inr blob \<and>
           decodeAudioData (data blob) 24000 = Inr b \<and>
           length (channelData b) = 3"
  using pcm_roundtrip_error [of "[1, - 1, 3 / 4]"] by fastforce

text \<open>
  The bound \<open>1/32768\<close> of claim C6 fails at the sample \<open>65535/65536\<close>, a
  32-bit float: it is encoded as 32766 (the bytes \<open>FE 7F\<close>, in base64
  \<^verbatim>\<open>/n8=\<close>) and decoded as \<open>16383/16384\<close>, which is \<open>3/65536\<close> away.
\<close>

theorem pcm_roundtrip_counterexample:
  "createPcmBlob [65535 / 65536] =
     Inr \<lparr>data = js ''/n8='', mimeType = js ''audio/pcm;rate=16000''\<rparr> \<and>
   decodeAudioData (js ''/n8='') 24000 =
     Inr \<lparr>numberOfChannels = 1, sampleRate = 24000, channelData = [16383 / 16384]\<rparr> \<and>
   - 1 \<le> (65535 / 65536 :: real) \<and> (65535 / 65536 :: real) \<le> 1 \<and>
   \<not> \<bar>65535 / 65536 - 16383 / 16384\<bar> \<le> (1 / 32768 :: real)"
proof -
  have "createPcmBlob [65535 / 65536] =
     Inr \<lparr>data = js ''/n8='', mimeType = js ''audio/pcm;rate=16000''\<rparr>"
    by (simp add: createPcmBlob_def arrayBufferToBase64_def btoa_def pcm_sample_def
        to_int16_def int16_buffer_def int16_bytes_def b64_char_def b64_alphabet_def
        js_def pad_char_def)
  moreover have "decodeAudioData (js ''/n8='') 24000 =
     Inr \<lparr>numberOfChannels = 1, sampleRate = 24000, channelData = [16383 / 16384]\<rparr>"
    by (simp add: decodeAudioData_def base64ToArrayBuffer_def atob_def
        is_ascii_whitespace_def strip_padding_def b64_index_def new_Int16Array_def
        createBuffer_def b64_alphabet_def js_def pad_char_def)
  ultimately show ?thesis by simp
qed

section \<open>The resampling loop ends and counts\<close>

lemma take_sample_inv:
  assumes "rec_inv p"
  shows "rec_inv (take_sample x p)"
    and "emitted (take_sample x p) = emitted p + 1"
    and "bufferSize (take_sample x p) = bufferSize p"
    and "targetSampleRate (take_sample x p) = targetSampleRate p"
    and "\<exists>cs. port (take_sample x p) = port p @ cs \<and> (\<forall>c \<in> set cs. length c = bufferSize p)"
  using assms
  by (auto simp: rec_inv_def take_sample_def flush_def emitted_def Let_def)

lemma resample_loop_step:
  "i < real (length cd) \<Longrightarrow> 0 \<le> i \<Longrightarrow>
   resample_loop ratio cd i p = resample_loop ratio cd (i + ratio) (take_sample (cd ! nat \<lfloor>i\<rfloor>) p)"
proof -
  assume a: "i < real (length cd)" "0 \<le> i"
  then have "nat \<lfloor>i\<rfloor> < length cd" by linarith
  with a show ?thesis
    by (subst resample_loop.simps) (simp add: take_sample_def Let_def)
qed

lemma resample_loop_done:
  "\<not> i < real (length cd) \<Longrightarrow> resample_loop ratio cd i p = Some p"
  by (subst resample_loop.simps) simp

lemma resample_loop_total:
  assumes "0 < ratio"
  shows "0 \<le> i \<Longrightarrow> rec_inv p \<Longrightarrow>
    \<exists>p' cs. resample_loop ratio cd i p = Some p' \<and> rec_inv p' \<and>
      bufferSize p' = bufferSize p \<and> targetSampleRate p' = targetSampleRate p \<and>
      emitted p' = emitted p + nat \<lceil>(real (length cd) - i) / ratio\<rceil> \<and>
      port p' = port p @ cs \<and> (\<forall>c \<in> set cs. length c = bufferSize p)"
proof (induction "nat \<lceil>(real (length cd) - i) / ratio\<rceil>" arbitrary: i p)
  case 0
  then have "(real (length cd) - i) / ratio \<le> 0" by simp linarith?
  with assms have "\<not> i < real (length cd)" by (simp add: divide_le_0_iff)
  with 0 show ?case by (simp add: resample_loop_done)
next
  case (Suc n)
  then have pos: "0 < (real (length cd) - i) / ratio" by linarith
  with assms have lt: "i < real (length cd)" by (simp add: zero_less_divide_iff)
  let ?p = "take_sample (cd ! nat \<lfloor>i\<rfloor>) p"
  have eq: "(real (length cd) - (i + ratio)) / ratio = (real (length cd) - i) / ratio - 1"
    using assms by (simp add: field_simps)
  have n: "n = nat \<lceil>(real (length cd) - (i + ratio)) / ratio\<rceil>"
    using Suc.hyps(2) by (simp add: eq) linarith?
  have "0 \<le> i + ratio" using Suc.prems assms by simp
  from Suc.hyps(1) [OF n this take_sample_inv(1) [OF Suc.prems(2)]]
  obtain p' cs where r: "resample_loop ratio cd (i + ratio) ?p = Some p'" "rec_inv p'"
      "bufferSize p' = bufferSize ?p" "targetSampleRate p' = targetSampleRate ?p"
      "emitted p' = emitted ?p + nat \<lceil>(real (length cd) - (i + ratio)) / ratio\<rceil>"
      "port p' = port ?p @ cs" "\<forall>c \<in> set cs. length c = bufferSize ?p"
    by blast
  from take_sample_inv(5) [OF Suc.prems(2), of "cd ! nat \<lfloor>i\<rfloor>"]
  obtain cs0 where c0: "port ?p = port p @ cs0" "\<forall>c \<in> set cs0. length c = bufferSize p"
    by blast
  have "resample_loop ratio cd i p = Some p'"
    using r(1) lt Suc.prems(1) by (simp add: resample_loop_step)
  moreover have "emitted p' = emitted p + nat \<lceil>(real (length cd) - i) / ratio\<rceil>"
    using r(5) n Suc.hyps(2) take_sample_inv(2) [OF Suc.prems(2)] by simp
  moreover have "port p' = port p @ (cs0 @ cs)" using r(6) c0 by simp
  moreover have "\<forall>c \<in> set (cs0 @ cs). length c = bufferSize p"
    using r(7) c0 take_sample_inv(3) [OF Suc.prems(2)] by auto
  moreover have "bufferSize p' = bufferSize p" "targetSampleRate p' = targetSampleRate p"
    using r(3,4) take_sample_inv(3,4) [OF Suc.prems(2)] by simp_all
  ultimately show ?case
    using r(2) by (metis (no_types))
qed

lemma recorder_ok_inv: "recorder_ok p \<Longrightarrow> rec_inv p"
  by (simp add: recorder_ok_def rec_inv_def)

lemma ceiling_div_nat:
  assumes "1 \<le> (m :: nat)"
  shows "nat \<lceil>real L / real m\<rceil> = (L + m - 1) div m"
proof -
  have m: "0 < m" using assms by simp
  define q where "q = (L + m - 1) div m"
  define r where "r = (L + m - 1) mod m"
  have d: "L + m - 1 = q * m + r" and rl: "r < m"
    using m by (simp_all add: q_def r_def)
  have up: "real L \<le> real q * real m"
  proof -
    have "L \<le> q * m" using d rl m by linarith
    then show ?thesis by (metis of_nat_le_iff of_nat_mult)
  qed
  have lo: "(real q - 1) * real m < real L"
  proof (cases q)
    case 0
    then show ?thesis using m by simp
  next
    case (Suc k)
    have "k * m < L" using d rl m Suc by simp
    then have "real k * real m < real L" by (metis of_nat_less_iff of_nat_mult)
    then show ?thesis using Suc by simp
  qed
  have "\<lceil>real L / real m\<rceil> = int q"
  proof (rule ceiling_unique)
    show "real_of_int (int q) - 1 < real L / real m"
      using lo m by (simp add: field_simps)
    show "real L / real m \<le> real_of_int (int q)"
      using up m by (simp add: field_simps)
  qed
  then show ?thesis by (simp add: q_def)
qed

lemma process_count:
  assumes "1 \<le> m" and "recorder_ok p"
  shows "\<exists>p' cs. process (real m * 16000) ((chan # chans) # inputs) p = Some p' \<and>
           recorder_ok p' \<and>
           emitted p' = emitted p + nat \<lceil>real (length chan) / real m\<rceil> \<and>
           port p' = port p @ cs \<and> (\<forall>c \<in> set cs. length c = 2048)"
proof -
  have t: "targetSampleRate p = 16000" "bufferSize p = 2048"
    using assms(2) by (simp_all add: recorder_ok_def)
  have q: "real m * 16000 / 16000 = real m" by simp
  have "0 < real m" using assms(1) by simp
  from resample_loop_total [OF this, of 0 p chan] recorder_ok_inv [OF assms(2)]
  obtain p' cs where r: "resample_loop (real m) chan 0 p = Some p'" "rec_inv p'"
      "bufferSize p' = bufferSize p" "targetSampleRate p' = targetSampleRate p"
      "emitted p' = emitted p + nat \<lceil>(real (length chan) - 0) / real m\<rceil>"
      "port p' = port p @ cs" "\<forall>c \<in> set cs. length c = bufferSize p"
    by auto
  have "recorder_ok p'"
    using r(2,3,4) t by (simp add: recorder_ok_def rec_inv_def)
  moreover have "process (real m * 16000) ((chan # chans) # inputs) p = Some p'"
    using r(1) t by (simp only: process_def list.case t q)
  ultimately show ?thesis
    using r(5,6,7) t by (intro exI [of _ p'] exI [of _ cs]) simp
qed

lemma recorder_ok_new: "recorder_ok new_RecorderProcessor"
  by (simp add: recorder_ok_def new_RecorderProcessor_def)

text \<open>
  Claim C5, as amended.  For every capture rate that is a multiple
  \<open>m * 16000\<close> of the target rate (\<open>m \<ge> 1\<close>) and every input block of
  length \<open>L\<close> with \<open>L + m \<le> 2 ^ 53\<close>, \<open>process\<close> returns; the number of
  samples it takes from the block (those posted in chunks and those left
  in the accumulation buffer) is the ceiling of \<open>L / m\<close>, one for each
  \<open>k \<ge> 0\<close> with \<open>k * m < L\<close>; and every chunk it posts has exactly 2048
  samples.
\<close>

theorem resample_chunking:
  assumes "1 \<le> m" and "length chan + m \<le> 2 ^ 53" and "recorder_ok p"
  shows "\<exists>p' cs. process (real m * 16000) ((chan # chans) # inputs) p = Some p' \<and>
           recorder_ok p' \<and>
           emitted p' = emitted p + nat \<lceil>real (length chan) / real m\<rceil> \<and>
           emitted p' = emitted p + (length chan + m - 1) div m \<and>
           port p' = port p @ cs \<and> (\<forall>c \<in> set cs. length c = 2048)"
proof -
  from process_count [OF assms(1,3), of chan chans inputs]
  obtain p' cs where r: "process (real m * 16000) ((chan # chans) # inputs) p = Some p'"
      "recorder_ok p'"
      "emitted p' = emitted p + nat \<lceil>real (length chan) / real m\<rceil>"
      "port p' = port p @ cs" "\<forall>c \<in> set cs. length c = 2048"
    by blast
  have "nat \<lceil>real (length chan) / real m\<rceil> = (length chan + m - 1) div m"
    by (rule ceiling_div_nat [OF assms(1)])
  with r show ?thesis by auto
qed

text \<open>The theorem at 48 kHz and a block of 128 samples.\<close>

theorem resample_chunking_witness:
  "\<exists>p'. process 48000 [[replicate 128 0]] new_RecorderProcessor = Some p' \<and>
     emitted p' = 43"
proof -
  have h: "(1 :: nat) \<le> 3" "length (replicate 128 (0 :: real)) + 3 \<le> 2 ^ 53"
    by simp_all
  from resample_chunking [OF h recorder_ok_new, of "[]" "[]"]
  obtain p' where r: "process (real 3 * 16000) [[replicate 128 0]] new_RecorderProcessor = Some p'"
    "emitted p' = emitted new_RecorderProcessor + (length (replicate 128 (0 :: real)) + 3 - 1) div 3"
    by blast
  have "emitted p' = 43"
    using r(2) by (simp add: emitted_def new_RecorderProcessor_def)
  moreover have "process 48000 [[replicate 128 0]] new_RecorderProcessor = Some p'"
    using r(1) by simp
  ultimately show ?thesis by simp
qed

text \<open>
  The count \<open>floor (L / (R / 16000))\<close> of claim C5 fails at 48 kHz on a
  fresh processor and a block of 128 samples: the ratio is 3, the loop
  runs for \<open>i = 0, 3, \<dots>, 126\<close> and takes 43 samples, the floor is 42.
\<close>

theorem resample_chunking_counterexample:
  "map_option emitted (process 48000 [[replicate 128 0]] new_RecorderProcessor) = Some 43 \<and>
   (16000 :: real) \<le> 48000 \<and>
   \<lfloor>real (length (replicate 128 (0 :: real))) / (48000 / 16000)\<rfloor> = 42"
proof -
  from process_count [of 3 new_RecorderProcessor "replicate 128 0" "[]" "[]"] recorder_ok_new
  obtain p' where r: "process (real 3 * 16000) [[replicate 128 0]] new_RecorderProcessor = Some p'"
    "emitted p' = emitted new_RecorderProcessor
       + nat \<lceil>real (length (replicate 128 (0 :: real))) / real 3\<rceil>"
    by auto
  have "emitted p' = 43"
    using r(2) by (simp add: emitted_def new_RecorderProcessor_def)
  moreover have "process 48000 [[replicate 128 0]] new_RecorderProcessor = Some p'"
    using r(1) by simp
  ultimately show ?thesis by simp
qed

section \<open>Stopping a session\<close>

lemma null_ref_simps:
  "(if mediaStreamRef s \<noteq> None then s\<lparr>mediaStreamRef := None\<rparr> else s) = s\<lparr>mediaStreamRef := None\<rparr>"
  "(if workletNodeRef s \<noteq> None then s\<lparr>workletNodeRef := None\<rparr> else s) = s\<lparr>workletNodeRef := None\<rparr>"
  "(if sourceNodeRef s \<noteq> None then s\<lparr>sourceNodeRef := None\<rparr> else s) = s\<lparr>sourceNodeRef := None\<rparr>"
proof -
  show "(if mediaStreamRef s \<noteq> None then s\<lparr>mediaStreamRef := None\<rparr> else s) = s\<lparr>mediaStreamRef := None\<rparr>"
    by (cases "mediaStreamRef s") simp_all
  show "(if workletNodeRef s \<noteq> None then s\<lparr>workletNodeRef := None\<rparr> else s) = s\<lparr>workletNodeRef := None\<rparr>"
    by (cases "workletNodeRef s") simp_all
  show "(if sourceNodeRef s \<noteq> None then s\<lparr>sourceNodeRef := None\<rparr> else s) = s\<lparr>sourceNodeRef := None\<rparr>"
    by (cases "sourceNodeRef s") simp_all
qed

lemma clear_timer_simp:
  "(case reconnectTimeoutRef s of None \<Rightarrow> s
    | Some t \<Rightarrow> s\<lparr>timers := clearTimeout t (timers s), reconnectTimeoutRef := None\<rparr>)
   = s\<lparr>timers := (case reconnectTimeoutRef s of None \<Rightarrow> timers s
                    | Some t \<Rightarrow> clearTimeout t (timers s)),
        reconnectTimeoutRef := None\<rparr>"
  by (cases "reconnectTimeoutRef s") simp_all

lemma suspend_simp:
  "(if globalAudioContextRef s = Some running
    then s\<lparr>globalAudioContextRef := Some suspended\<rparr> else s)
   = s\<lparr>globalAudioContextRef :=
        (if globalAudioContextRef s = Some running then Some suspended
         else globalAudioContextRef s)\<rparr>"
  by simp

lemma save_simp:
  "(if a \<noteq> [] \<or> b \<noteq> [] then s\<lparr>transcripts := transcripts s @ (if a \<noteq> [] then [x] else []) @ (if b \<noteq> [] then [y] else [])\<rparr> else s)
   = s\<lparr>transcripts := transcripts s @ (if a \<noteq> [] then [x] else []) @ (if b \<noteq> [] then [y] else [])\<rparr>"
  by simp

lemma full_simp:
  "(if f then s\<lparr>status := DISCONNECTED\<rparr> else s) = s\<lparr>status := (if f then DISCONNECTED else status s)\<rparr>"
  by simp

lemma stopSession_closed:
  "stopSession e f s =
     s\<lparr>timers := (case reconnectTimeoutRef s of None \<Rightarrow> timers s
                    | Some t \<Rightarrow> clearTimeout t (timers s)),
       reconnectTimeoutRef := None,
       mediaStreamRef := None, workletNodeRef := None, sourceNodeRef := None,
       nodes := stop_sources (audioSourcesRef s) (nodes s),
       audioSourcesRef := [],
       nextStartTimeRef := 0,
       globalAudioContextRef :=
         (if globalAudioContextRef s = Some running then Some suspended
          else globalAudioContextRef s),
       sessionRef := None,
       transcripts := transcripts s
         @ (if trim (currentTurnInputRef s) \<noteq> []
            then [final_item e ''-saved-input'' User (trim (currentTurnInputRef s))] else [])
         @ (if trim (currentTurnOutputRef s) \<noteq> []
            then [final_item e ''-saved-output'' Model (trim (currentTurnOutputRef s))] else []),
       currentInput := [], currentOutput := [],
       currentTurnInputRef := [], currentTurnOutputRef := [],
       status := (if f then DISCONNECTED else status s)\<rparr>"
  unfolding stopSession_def Let_def null_ref_simps clear_timer_simp suspend_simp save_simp full_simp
    flushPlayback_def
  by simp

lemma trim_Nil: "trim [] = []" by (simp add: trim_def)

lemma stopSession_fields:
  "reconnectTimeoutRef (stopSession e f s) = None"
  "mediaStreamRef (stopSession e f s) = None"
  "workletNodeRef (stopSession e f s) = None"
  "sourceNodeRef (stopSession e f s) = None"
  "sessionRef (stopSession e f s) = None"
  "audioSourcesRef (stopSession e f s) = []"
  "nextStartTimeRef (stopSession e f s) = 0"
  "currentTurnInputRef (stopSession e f s) = []"
  "currentTurnOutputRef (stopSession e f s) = []"
  "currentInput (stopSession e f s) = []"
  "currentOutput (stopSession e f s) = []"
  "globalAudioContextRef (stopSession e f s) =
     (if globalAudioContextRef s = Some running then Some suspended
      else globalAudioContextRef s)"
  "retryCountRef (stopSession e f s) = retryCountRef s"
  "nodes (stopSession e f s) = stop_sources (audioSourcesRef s) (nodes s)"
  "status (stopSession e f s) = (if f then DISCONNECTED else status s)"
  "errorMsg (stopSession e f s) = errorMsg s"
  "transcripts (stopSession e f s) = transcripts s
     @ (if trim (currentTurnInputRef s) \<noteq> []
        then [final_item e ''-saved-input'' User (trim (currentTurnInputRef s))] else [])
     @ (if trim (currentTurnOutputRef s) \<noteq> []
        then [final_item e ''-saved-output'' Model (trim (currentTurnOutputRef s))] else [])"
  "isWorkletLoadedRef (stopSession e f s) = isWorkletLoadedRef s"
  "outputAudioContextRef (stopSession e f s) = outputAudioContextRef s"
  "awaiting (stopSession e f s) = awaiting s"
  "outbox (stopSession e f s) = outbox s"
  "app.more (stopSession e f s) = app.more s"
  unfolding stopSession_closed by (simp_all split del: if_split)

lemma stopSession_timers:
  "timers (stopSession e f s) =
     (case reconnectTimeoutRef s of None \<Rightarrow> timers s
      | Some t \<Rightarrow> clearTimeout t (timers s))"
  unfolding stopSession_closed by simp

lemma stopSession_idem: "stopSession e2 f (stopSession e1 f s) = stopSession e1 f s"
  by (rule app.equality) (simp_all add: stopSession_fields stopSession_timers trim_Nil)

lemma stopSession_split:
  "stopSession e f s = stopSession_resume e f (stopSession_begin s)"
  by (simp add: stopSession_def stopSession_begin_def stopSession_resume_def Let_def)

lemma stopSession_begin_closed:
  "stopSession_begin s =
     s\<lparr>timers := (case reconnectTimeoutRef s of None \<Rightarrow> timers s
                    | Some t \<Rightarrow> clearTimeout t (timers s)),
       reconnectTimeoutRef := None,
       mediaStreamRef := None, workletNodeRef := None, sourceNodeRef := None,
       nodes := stop_sources (audioSourcesRef s) (nodes s),
       audioSourcesRef := [],
       nextStartTimeRef := 0\<rparr>"
  unfolding stopSession_begin_def Let_def null_ref_simps clear_timer_simp flushPlayback_def
  by simp

lemma stopSession_begin_idem: "stopSession_begin (stopSession_begin s) = stopSession_begin s"
  by (simp add: stopSession_begin_closed [of "stopSession_begin s"])
     (simp add: stopSession_begin_closed)

lemma stopSession_begin_fixed:
  "stopSession_begin (stopSession e f s) = stopSession e f s"
  by (rule app.equality)
    (simp_all add: stopSession_begin_closed stopSession_fields stopSession_timers)

lemma stopSession_interleaved:
  "stopSession_resume e2 f (stopSession_resume e1 f (stopSession_begin (stopSession_begin s)))
   = stopSession e1 f s"
proof -
  have "stopSession_resume e2 f (stopSession_resume e1 f (stopSession_begin (stopSession_begin s)))
      = stopSession_resume e2 f (stopSession e1 f s)"
    by (simp add: stopSession_begin_idem stopSession_split)
  also have "\<dots> = stopSession_resume e2 f (stopSession_begin (stopSession e1 f s))"
    by (simp only: stopSession_begin_fixed)
  also have "\<dots> = stopSession e2 f (stopSession e1 f s)"
    by (simp only: stopSession_split)
  also have "\<dots> = stopSession e1 f s"
    by (rule stopSession_idem)
  finally show ?thesis .
qed

text \<open>
  Claim C9.  \<open>stopSession\<close> is idempotent: from every state, running it a
  second time right after the first (with the same flag, at any later
  time) gives the state the first run left, also when the second run is
  called while the first still waits for the capture context to be
  suspended.  In particular the second run appends no transcript item,
  changes no playback handle and no timer, and the reconnect timer, the
  live set, the next start time, the media, worklet, source and session
  refs and both partial buffers are as cleared as the first run left them.
\<close>

theorem teardown_idempotent:
  "stopSession e2 f (stopSession e1 f s) = stopSession e1 f s \<and>
   stopSession_resume e2 f
     (stopSession_resume e1 f (stopSession_begin (stopSession_begin s)))
     = stopSession e1 f s \<and>
   transcripts (stopSession e2 f (stopSession e1 f s)) = transcripts (stopSession e1 f s) \<and>
   nodes (stopSession e2 f (stopSession e1 f s)) = nodes (stopSession e1 f s) \<and>
   timers (stopSession e2 f (stopSession e1 f s)) = timers (stopSession e1 f s) \<and>
   reconnectTimeoutRef (stopSession e1 f s) = None \<and>
   audioSourcesRef (stopSession e1 f s) = [] \<and>
   nextStartTimeRef (stopSession e1 f s) = 0 \<and>
   mediaStreamRef (stopSession e1 f s) = None \<and>
   workletNodeRef (stopSession e1 f s) = None \<and>
   sourceNodeRef (stopSession e1 f s) = None \<and>
   sessionRef (stopSession e1 f s) = None \<and>
   currentTurnInputRef (stopSession e1 f s) = [] \<and>
   currentTurnOutputRef (stopSession e1 f s) = []"
proof -
  have "stopSession e2 f (stopSession e1 f s) = stopSession e1 f s"
    by (rule stopSession_idem)
  moreover have "stopSession_resume e2 f
     (stopSession_resume e1 f (stopSession_begin (stopSession_begin s)))
     = stopSession e1 f s"
    by (rule stopSession_interleaved)
  ultimately show ?thesis
    by (simp add: stopSession_fields)
qed

text \<open>The theorem at a state with pending texts and a pending reconnect timer.\<close>

theorem teardown_idempotent_witness:
  "stopSession \<lparr>api_key = None, dateNow = 2, currentTime = 0\<rparr> True
     (stopSession \<lparr>api_key = None, dateNow = 1, currentTime = 0\<rparr> True
        (initial_app\<lparr>currentTurnInputRef := js ''hello'', currentTurnOutputRef := js ''world'',
           reconnectTimeoutRef := Some 0,
           timers := [\<lparr>delay = 2000, timer_state = Pending\<rparr>]\<rparr>))
   = stopSession \<lparr>api_key = None, dateNow = 1, currentTime = 0\<rparr> True
        (initial_app\<lparr>currentTurnInputRef := js ''hello'', currentTurnOutputRef := js ''world'',
           reconnectTimeoutRef := Some 0,
           timers := [\<lparr>delay = 2000, timer_state = Pending\<rparr>]\<rparr>)"
  by (rule teardown_idempotent [THEN conjunct1])

text \<open>
  Claim C3.  When the trimmed partial input text and the trimmed partial
  output text are both non-empty, a manual stop (\<open>handleDisconnect\<close>) appends
  exactly two finalized items to the transcript history, the user's
  trimmed text first and the model's second, and leaves both partial
  buffers and both displayed partials empty; every teardown
  (\<open>stopSession\<close> with either flag) appends the same two items, so no
  pending text is lost.
\<close>

theorem manual_stop_keeps_pending_text:
  assumes "trim (currentTurnInputRef s) \<noteq> []" and "trim (currentTurnOutputRef s) \<noteq> []"
  shows "\<exists>u m. transcripts (handleDisconnect e s) = transcripts s @ [u, m] \<and>
           role u = User \<and> item_text u = trim (currentTurnInputRef s) \<and> isFinal u \<and>
           role m = Model \<and> item_text m = trim (currentTurnOutputRef s) \<and> isFinal m \<and>
           currentTurnInputRef (handleDisconnect e s) = [] \<and>
           currentTurnOutputRef (handleDisconnect e s) = [] \<and>
           currentInput (handleDisconnect e s) = [] \<and>
           currentOutput (handleDisconnect e s) = [] \<and>
           status (handleDisconnect e s) = DISCONNECTED \<and>
           (\<forall>fullDisconnect.
              transcripts (stopSession e fullDisconnect s) = transcripts s @ [u, m])"
proof -
  let ?u = "final_item e ''-saved-input'' User (trim (currentTurnInputRef s))"
  let ?m = "final_item e ''-saved-output'' Model (trim (currentTurnOutputRef s))"
  have "transcripts (handleDisconnect e s) = transcripts s @ [?u, ?m]"
    using assms by (simp add: handleDisconnect_def stopSession_fields)
  moreover have "role ?u = User" "item_text ?u = trim (currentTurnInputRef s)" "isFinal ?u"
    "role ?m = Model" "item_text ?m = trim (currentTurnOutputRef s)" "isFinal ?m"
    by (simp_all add: final_item_def)
  moreover have "currentTurnInputRef (handleDisconnect e s) = []"
    "currentTurnOutputRef (handleDisconnect e s) = []"
    "currentInput (handleDisconnect e s) = []"
    "currentOutput (handleDisconnect e s) = []"
    "status (handleDisconnect e s) = DISCONNECTED"
    by (simp_all add: handleDisconnect_def stopSession_fields)
  moreover have "\<forall>fullDisconnect.
      transcripts (stopSession e fullDisconnect s) = transcripts s @ [?u, ?m]"
    using assms by (simp add: stopSession_fields)
  ultimately show ?thesis by blast
qed

lemma trim_hello: "trim (js ''hello'') = js ''hello''" "trim (js ''world'') = js ''world''"
  by (simp_all add: trim_def js_def is_js_whitespace_def)

text \<open>
  The theorem at the pending texts \<^verbatim>\<open>hello\<close> and
  \<^verbatim>\<open>world\<close>.
\<close>

theorem manual_stop_keeps_pending_text_witness:
  "map item_text (transcripts (handleDisconnect \<lparr>api_key = None, dateNow = 0, currentTime = 0\<rparr>
      (initial_app\<lparr>currentTurnInputRef := js ''hello'', currentTurnOutputRef := js ''world''\<rparr>)))
   = [js ''hello'', js ''world'']"
proof -
  let ?s = "initial_app\<lparr>currentTurnInputRef := js ''hello'', currentTurnOutputRef := js ''world''\<rparr>"
  let ?e = "\<lparr>api_key = None, dateNow = 0, currentTime = 0\<rparr>"
  have i: "currentTurnInputRef ?s = js ''hello''" "currentTurnOutputRef ?s = js ''world''"
    "transcripts ?s = []"
    by (simp_all add: initial_app_def)
  have h: "trim (currentTurnInputRef ?s) \<noteq> []" "trim (currentTurnOutputRef ?s) \<noteq> []"
    by (simp_all add: i trim_hello) (simp_all add: js_def)
  from manual_stop_keeps_pending_text [OF h, of ?e]
  obtain u m where "transcripts (handleDisconnect ?e ?s) = transcripts ?s @ [u, m]"
    "item_text u = trim (currentTurnInputRef ?s)" "item_text m = trim (currentTurnOutputRef ?s)"
    by blast
  then show ?thesis by (simp add: i trim_hello)
qed

section \<open>Playback and messages\<close>

lemma length_stop_sources [simp]: "length (stop_sources is ns) = length ns"
  by (induction "is" arbitrary: ns) (simp_all add: node_stop_def)

lemma stop_one_nth:
  "(if i < length ns then (case node_stop (ns ! i) of Inl e \<Rightarrow> ns | Inr n \<Rightarrow> ns[i := n]) else ns) ! j
   = (if j = i \<and> i < length ns \<and> playback (ns ! i) = Started
      then (ns ! i)\<lparr>playback := Stopped\<rparr> else ns ! j)"
  by (simp add: node_stop_def)

lemma stop_one_length:
  "length (if i < length ns then (case node_stop (ns ! i) of Inl e \<Rightarrow> ns | Inr n \<Rightarrow> ns[i := n]) else ns)
   = length ns"
  by (simp add: node_stop_def)

lemma stop_sources_nth:
  "j < length ns \<Longrightarrow>
   stop_sources is ns ! j =
     (if j \<in> set is \<and> playback (ns ! j) = Started
      then (ns ! j)\<lparr>playback := Stopped\<rparr> else ns ! j)"
proof (induction "is" arbitrary: ns)
  case Nil
  then show ?case by simp
next
  case (Cons i rest)
  let ?ns = "if i < length ns then (case node_stop (ns ! i) of Inl e \<Rightarrow> ns | Inr n \<Rightarrow> ns[i := n]) else ns"
  have l: "j < length ?ns" using Cons.prems by (simp only: stop_one_length)
  have "stop_sources (i # rest) ns ! j = stop_sources rest ?ns ! j" by simp
  also have "\<dots> = (if j \<in> set rest \<and> playback (?ns ! j) = Started
      then (?ns ! j)\<lparr>playback := Stopped\<rparr> else ?ns ! j)"
    by (rule Cons.IH [OF l])
  also have "\<dots> = (if j \<in> set (i # rest) \<and> playback (ns ! j) = Started
      then (ns ! j)\<lparr>playback := Stopped\<rparr> else ns ! j)"
    using Cons.prems by (simp only: stop_one_nth) auto
  finally show ?case .
qed

lemma flushPlayback_idem: "flushPlayback (flushPlayback s) = flushPlayback s"
  by (simp add: flushPlayback_def)

lemma flushPlayback_empty:
  "audioSourcesRef s = [] \<Longrightarrow> flushPlayback s = s\<lparr>nextStartTimeRef := 0\<rparr>"
  by (simp add: flushPlayback_def)

lemma partials_fields:
  "nodes (onMessageReceived_partials m s) = nodes s"
  "nextStartTimeRef (onMessageReceived_partials m s) = nextStartTimeRef s"
  "audioSourcesRef (onMessageReceived_partials m s) = audioSourcesRef s"
  "outputAudioContextRef (onMessageReceived_partials m s) = outputAudioContextRef s"
  "transcripts (onMessageReceived_partials m s) = transcripts s"
  "currentTurnInputRef (onMessageReceived_partials m s) =
     currentTurnInputRef s @ (case inputTranscription m of None \<Rightarrow> [] | Some t \<Rightarrow> t)"
  "currentTurnOutputRef (onMessageReceived_partials m s) =
     currentTurnOutputRef s @ (case outputTranscription m of None \<Rightarrow> [] | Some t \<Rightarrow> t)"
  by (simp_all add: onMessageReceived_partials_def Let_def split: option.split)

lemma turn_ctx:
  "outputAudioContextRef (onMessageReceived_turn e m s) = outputAudioContextRef s"
  by (simp add: onMessageReceived_turn_def Let_def flushPlayback_def)

lemma turn_playback:
  "\<not> interrupted m \<Longrightarrow> nodes (onMessageReceived_turn e m s) = nodes s"
  "\<not> interrupted m \<Longrightarrow> nextStartTimeRef (onMessageReceived_turn e m s) = nextStartTimeRef s"
  "\<not> interrupted m \<Longrightarrow> audioSourcesRef (onMessageReceived_turn e m s) = audioSourcesRef s"
  by (simp_all add: onMessageReceived_turn_def Let_def)

lemma toolCalls_ctx:
  "outputAudioContextRef (onMessageReceived_toolCalls e fcs m s) = outputAudioContextRef s"
  by (induction fcs) (simp_all add: turn_ctx generateImageContent_begin_def Let_def)

lemma toolCalls_playback:
  "\<not> interrupted m \<Longrightarrow> nodes (onMessageReceived_toolCalls e fcs m s) = nodes s"
  "\<not> interrupted m \<Longrightarrow>
     nextStartTimeRef (onMessageReceived_toolCalls e fcs m s) = nextStartTimeRef s"
  "\<not> interrupted m \<Longrightarrow>
     audioSourcesRef (onMessageReceived_toolCalls e fcs m s) = audioSourcesRef s"
  by (induction fcs; simp add: turn_playback generateImageContent_begin_def Let_def)+

lemma onMessageReceived_ctx:
  "outputAudioContextRef (onMessageReceived e m s) = outputAudioContextRef s"
  by (simp add: onMessageReceived_def toolCalls_ctx partials_fields)

lemma onMessageReceived_playback:
  "\<not> interrupted m \<Longrightarrow> nodes (onMessageReceived e m s) = nodes s"
  "\<not> interrupted m \<Longrightarrow> nextStartTimeRef (onMessageReceived e m s) = nextStartTimeRef s"
  "\<not> interrupted m \<Longrightarrow> audioSourcesRef (onMessageReceived e m s) = audioSourcesRef s"
  by (simp_all add: onMessageReceived_def toolCalls_playback partials_fields)

lemma onMessageReceived_no_calls:
  "toolCall m = None \<Longrightarrow>
   onMessageReceived e m s = onMessageReceived_turn e m (onMessageReceived_partials m s)"
  by (simp add: onMessageReceived_def)

lemma decode_empty: "decodeAudioData [] r = Inl NotSupportedError"
  by (simp add: decodeAudioData_def base64ToArrayBuffer_def atob_def strip_padding_def
      new_Int16Array_def createBuffer_def)

lemma onmessage_scheduled:
  assumes "audioData m = Some f" and "decodeAudioData f 24000 = Inr b"
    and "outputAudioContextRef s \<noteq> None"
  shows "onmessage e m s =
     schedule (max (nextStartTimeRef (onMessageReceived e m s)) (currentTime e)) b
       (onMessageReceived e m s)"
proof -
  have "f \<noteq> []" using assms(2) decode_empty by auto
  then show ?thesis
    using assms by (simp add: onmessage_def Let_def onMessageReceived_ctx)
qed

lemma onmessage_decode_failed:
  "audioData m = Some f \<Longrightarrow> decodeAudioData f 24000 = Inl err \<Longrightarrow>
   onmessage e m s = onMessageReceived e m s"
  by (simp add: onmessage_def Let_def)

lemma onmessage_no_audio:
  "audioData m = None \<Longrightarrow> onmessage e m s = onMessageReceived e m s"
  by (simp add: onmessage_def Let_def)

lemma schedule_fields:
  "nodes (schedule t b s) = nodes s @ [\<lparr>startAt = t, node_buffer = b, playback = Started\<rparr>]"
  "nextStartTimeRef (schedule t b s) = t + duration b"
  by (simp_all add: schedule_def)

lemma onmessage_nodes_cases:
  assumes "\<not> interrupted m"
  shows "(nodes (onmessage e m s) = nodes s \<and>
          nextStartTimeRef (onmessage e m s) = nextStartTimeRef s) \<or>
         (\<exists>b. nodes (onmessage e m s) = nodes s @
                 [\<lparr>startAt = max (nextStartTimeRef s) (currentTime e),
                   node_buffer = b, playback = Started\<rparr>] \<and>
               nextStartTimeRef (onmessage e m s) =
                 max (nextStartTimeRef s) (currentTime e) + duration b)"
proof (cases "audioData m")
  case None
  then show ?thesis
    using assms by (simp add: onmessage_no_audio onMessageReceived_playback)
next
  case (Some f)
  show ?thesis
  proof (cases "f \<noteq> [] \<and> outputAudioContextRef s \<noteq> None")
    case False
    then show ?thesis
      using Some assms
      by (auto simp: onmessage_def Let_def onMessageReceived_ctx onMessageReceived_playback)
  next
    case True
    show ?thesis
    proof (cases "decodeAudioData f 24000")
      case (Inl err)
      then show ?thesis
        using Some assms by (simp add: onmessage_decode_failed onMessageReceived_playback)
    next
      case (Inr b)
      then show ?thesis
        using Some True assms
        by (simp add: onmessage_scheduled schedule_fields onMessageReceived_playback)
    qed
  qed
qed

lemma chained_snoc:
  assumes "chained ns t" and "t \<le> startAt n"
  shows "chained (ns @ [n]) (end_time n)"
  using assms by (auto simp: chained_def successively_append_iff)

lemma onmessage_chained:
  assumes "\<not> interrupted m" and "k \<le> length (nodes s)"
    and "chained (drop k (nodes s)) (nextStartTimeRef s)"
  shows "chained (drop k (nodes (onmessage e m s))) (nextStartTimeRef (onmessage e m s)) \<and>
         take (length (nodes s)) (nodes (onmessage e m s)) = nodes s \<and>
         length (nodes s) \<le> length (nodes (onmessage e m s))"
proof -
  from onmessage_nodes_cases [OF assms(1), of e s]
  show ?thesis
  proof
    assume "nodes (onmessage e m s) = nodes s \<and>
          nextStartTimeRef (onmessage e m s) = nextStartTimeRef s"
    then show ?thesis using assms by simp
  next
    assume "\<exists>b. nodes (onmessage e m s) = nodes s @
                 [\<lparr>startAt = max (nextStartTimeRef s) (currentTime e),
                   node_buffer = b, playback = Started\<rparr>] \<and>
               nextStartTimeRef (onmessage e m s) =
                 max (nextStartTimeRef s) (currentTime e) + duration b"
    then obtain b where n: "nodes (onmessage e m s) = nodes s @
                 [\<lparr>startAt = max (nextStartTimeRef s) (currentTime e),
                   node_buffer = b, playback = Started\<rparr>]"
      and t: "nextStartTimeRef (onmessage e m s) =
                 max (nextStartTimeRef s) (currentTime e) + duration b"
      by blast
    let ?n = "\<lparr>startAt = max (nextStartTimeRef s) (currentTime e),
                   node_buffer = b, playback = Started\<rparr>"
    have "chained (drop k (nodes s) @ [?n]) (end_time ?n)"
      by (rule chained_snoc [OF assms(3)]) simp
    then show ?thesis
      using assms(2) by (simp add: n t end_time_def)
  qed
qed

lemma deliver_chained:
  assumes "\<forall>(e, m) \<in> set evs. \<not> interrupted m" and "k \<le> length (nodes s)"
    and "chained (drop k (nodes s)) (nextStartTimeRef s)"
  shows "chained (drop k (nodes (deliver evs s))) (nextStartTimeRef (deliver evs s)) \<and>
         take (length (nodes s)) (nodes (deliver evs s)) = nodes s \<and>
         length (nodes s) \<le> length (nodes (deliver evs s))"
  using assms
proof (induction evs arbitrary: s)
  case Nil
  then show ?case by simp
next
  case (Cons ev evs)
  obtain e m where ev: "ev = (e, m)" by (cases ev)
  let ?s = "onmessage e m s"
  from Cons.prems ev have ni: "\<not> interrupted m" by simp
  from onmessage_chained [OF ni Cons.prems(2,3), of e]
  have c: "chained (drop k (nodes ?s)) (nextStartTimeRef ?s)"
    and t: "take (length (nodes s)) (nodes ?s) = nodes s"
    and l: "length (nodes s) \<le> length (nodes ?s)"
    by simp_all
  from Cons.prems(1) have r: "\<forall>(e, m) \<in> set evs. \<not> interrupted m" by simp
  from Cons.prems(2) l have k: "k \<le> length (nodes ?s)" by simp
  from Cons.IH [OF r k c]
  have c': "chained (drop k (nodes (deliver evs ?s))) (nextStartTimeRef (deliver evs ?s))"
    and t': "take (length (nodes ?s)) (nodes (deliver evs ?s)) = nodes ?s"
    and l': "length (nodes ?s) \<le> length (nodes (deliver evs ?s))"
    by simp_all
  have "take (length (nodes s)) (nodes (deliver evs ?s)) = nodes s"
  proof -
    have "take (length (nodes s)) (nodes (deliver evs ?s))
        = take (length (nodes s)) (take (length (nodes ?s)) (nodes (deliver evs ?s)))"
      using l by (simp add: min_def)
    also have "\<dots> = nodes s" by (simp only: t' t)
    finally show ?thesis .
  qed
  then show ?case using c' l l' ev by simp
qed

lemma decode_zero_sample:
  "decodeAudioData (js ''AAA='') 24000 =
     Inr \<lparr>numberOfChannels = 1, sampleRate = 24000, channelData = [0]\<rparr>"
  by (simp add: decodeAudioData_def base64ToArrayBuffer_def atob_def
        is_ascii_whitespace_def strip_padding_def b64_index_def new_Int16Array_def
        createBuffer_def b64_alphabet_def js_def pad_char_def)

lemma audio_message_fields:
  "audioData (audio_message f) = Some f" "\<not> interrupted (audio_message f)"
  "toolCall (audio_message f) = None" "\<not> turnComplete (audio_message f)"
  "inputTranscription (audio_message f) = None" "outputTranscription (audio_message f) = None"
  by (simp_all add: audio_message_def empty_message_def)

lemma onMessageReceived_audio_message: "onMessageReceived e (audio_message f) s = s"
  by (simp add: onMessageReceived_no_calls audio_message_fields onMessageReceived_turn_def
      onMessageReceived_partials_def Let_def)

text \<open>
  Claim C1.  When a message carries an audio frame that decodes (and the
  output context exists), the buffer is started at the maximum of the
  next start time and the output clock's current time, the next start
  time becomes that start plus the buffer's duration, and the start is
  not before the clock's current time.  Consequently, over every sequence
  of messages without an interruption, the handles created follow one
  another without overlap: each starts no earlier than the one before it
  ends.
\<close>

theorem gapless_scheduling:
  "(audioData m = Some f \<and> decodeAudioData f 24000 = Inr b \<and> outputAudioContextRef s \<noteq> None \<longrightarrow>
      (let s1 = onMessageReceived e m s;
           startTime = max (nextStartTimeRef s1) (currentTime e);
           s' = onmessage e m s
       in nodes s' = nodes s1 @ [\<lparr>startAt = startTime, node_buffer = b, playback = Started\<rparr>] \<and>
          nextStartTimeRef s' = startTime + duration b \<and>
          currentTime e \<le> startTime)) \<and>
   ((\<forall>(e, m) \<in> set evs. \<not> interrupted m) \<longrightarrow>
      (let new = drop (length (nodes s)) (nodes (deliver evs s))
       in \<forall>i. Suc i < length new \<longrightarrow>
            startAt (new ! i) + duration (node_buffer (new ! i)) \<le> startAt (new ! Suc i)))"
proof (intro conjI impI)
  assume a: "audioData m = Some f \<and> decodeAudioData f 24000 = Inr b \<and>
    outputAudioContextRef s \<noteq> None"
  then have "onmessage e m s =
     schedule (max (nextStartTimeRef (onMessageReceived e m s)) (currentTime e)) b
       (onMessageReceived e m s)"
    by (simp add: onmessage_scheduled)
  then show "let s1 = onMessageReceived e m s;
           startTime = max (nextStartTimeRef s1) (currentTime e);
           s' = onmessage e m s
       in nodes s' = nodes s1 @ [\<lparr>startAt = startTime, node_buffer = b, playback = Started\<rparr>] \<and>
          nextStartTimeRef s' = startTime + duration b \<and>
          currentTime e \<le> startTime"
    by (simp add: Let_def schedule_fields)
next
  assume n: "\<forall>(e, m) \<in> set evs. \<not> interrupted m"
  have "chained (drop (length (nodes s)) (nodes s)) (nextStartTimeRef s)"
    by (simp add: chained_def)
  from deliver_chained [OF n _ this]
  have "chained (drop (length (nodes s)) (nodes (deliver evs s)))
          (nextStartTimeRef (deliver evs s))"
    by simp
  then have "successively (\<lambda>a b. end_time a \<le> startAt b)
      (drop (length (nodes s)) (nodes (deliver evs s)))"
    by (simp add: chained_def)
  then show "let new = drop (length (nodes s)) (nodes (deliver evs s))
       in \<forall>i. Suc i < length new \<longrightarrow>
            startAt (new ! i) + duration (node_buffer (new ! i)) \<le> startAt (new ! Suc i)"
    unfolding Let_def successively_conv_nth end_time_def by blast
qed

text \<open>The theorem at two frames of one sample each, both arriving at clock time 1.\<close>

theorem gapless_scheduling_witness:
  "map startAt (nodes (deliver
      [(\<lparr>api_key = None, dateNow = 0, currentTime = 1\<rparr>, audio_message (js ''AAA='')),
       (\<lparr>api_key = None, dateNow = 0, currentTime = 1\<rparr>, audio_message (js ''AAA=''))]
      (initial_app\<lparr>outputAudioContextRef := Some running\<rparr>)))
   = [1, 1 + 1 / 24000] \<and>
   startAt (nodes (deliver
      [(\<lparr>api_key = None, dateNow = 0, currentTime = 1\<rparr>, audio_message (js ''AAA='')),
       (\<lparr>api_key = None, dateNow = 0, currentTime = 1\<rparr>, audio_message (js ''AAA=''))]
      (initial_app\<lparr>outputAudioContextRef := Some running\<rparr>)) ! 0)
   + duration (node_buffer (nodes (deliver
      [(\<lparr>api_key = None, dateNow = 0, currentTime = 1\<rparr>, audio_message (js ''AAA='')),
       (\<lparr>api_key = None, dateNow = 0, currentTime = 1\<rparr>, audio_message (js ''AAA=''))]
      (initial_app\<lparr>outputAudioContextRef := Some running\<rparr>)) ! 0))
   \<le> startAt (nodes (deliver
      [(\<lparr>api_key = None, dateNow = 0, currentTime = 1\<rparr>, audio_message (js ''AAA='')),
       (\<lparr>api_key = None, dateNow = 0, currentTime = 1\<rparr>, audio_message (js ''AAA=''))]
      (initial_app\<lparr>outputAudioContextRef := Some running\<rparr>)) ! 1) \<and>
   nextStartTimeRef (onmessage \<lparr>api_key = None, dateNow = 0, currentTime = 1\<rparr>
      (audio_message (js ''AAA=''))
      (initial_app\<lparr>outputAudioContextRef := Some running\<rparr>)) = 1 + 1 / 24000"
proof -
  let ?e = "\<lparr>api_key = None, dateNow = 0, currentTime = 1\<rparr>"
  let ?m = "audio_message (js ''AAA='')"
  let ?s = "initial_app\<lparr>outputAudioContextRef := Some running\<rparr>"
  let ?b = "\<lparr>numberOfChannels = 1, sampleRate = 24000, channelData = [0]\<rparr>"
  let ?evs = "[(?e, ?m), (?e, ?m)]"
  have h1: "audioData ?m = Some (js ''AAA='') \<and> decodeAudioData (js ''AAA='') 24000 = Inr ?b \<and>
      outputAudioContextRef ?s \<noteq> None"
    by (simp add: audio_message_fields decode_zero_sample)
  have h2: "\<forall>(e, m) \<in> set ?evs. \<not> interrupted m"
    by (simp add: audio_message_fields)
  note g = gapless_scheduling [of ?m "js ''AAA=''" ?b ?s ?e ?evs]
  from g h1 have 1: "nodes (onmessage ?e ?m ?s) =
      nodes ?s @ [\<lparr>startAt = max (nextStartTimeRef ?s) 1, node_buffer = ?b, playback = Started\<rparr>]"
    and 2: "nextStartTimeRef (onmessage ?e ?m ?s) = max (nextStartTimeRef ?s) 1 + duration ?b"
    by (simp_all add: Let_def onMessageReceived_audio_message)
  have 3: "nextStartTimeRef (onmessage ?e ?m ?s) = 1 + 1 / 24000"
    using 2 by (simp add: initial_app_def duration_def)
  have o: "outputAudioContextRef (onmessage ?e ?m ?s) \<noteq> None"
    by (simp add: onmessage_scheduled [OF _ decode_zero_sample] audio_message_fields
        schedule_def onMessageReceived_audio_message)
  have "nodes (deliver ?evs ?s) = nodes (onmessage ?e ?m (onmessage ?e ?m ?s))"
    by simp
  also have "\<dots> = nodes (onmessage ?e ?m ?s) @
      [\<lparr>startAt = max (nextStartTimeRef (onmessage ?e ?m ?s)) 1, node_buffer = ?b,
        playback = Started\<rparr>]"
    using o
    by (simp add: onmessage_scheduled [OF _ decode_zero_sample, of ?m "onmessage ?e ?m ?s"]
        audio_message_fields schedule_fields onMessageReceived_audio_message)
  finally have n: "map startAt (nodes (deliver ?evs ?s)) = [1, 1 + 1 / 24000]"
    by (simp add: 1 3) (simp add: initial_app_def)
  then have l: "length (nodes (deliver ?evs ?s)) = 2"
    using length_map [of startAt "nodes (deliver ?evs ?s)"] by simp
  have z: "length (nodes ?s) = 0" by (simp add: initial_app_def)
  from g [THEN conjunct2, THEN mp, OF h2, unfolded Let_def z drop_0, rule_format, of 0] l
  have "startAt (nodes (deliver ?evs ?s) ! 0)
      + duration (node_buffer (nodes (deliver ?evs ?s) ! 0))
      \<le> startAt (nodes (deliver ?evs ?s) ! 1)"
    by simp
  with n 3 show ?thesis by simp
qed

lemma turn_fields:
  "transcripts (onMessageReceived_turn e m p) =
     transcripts p
     @ (if turnComplete m \<and> trim (currentTurnInputRef p) \<noteq> []
        then [final_item e ''-user'' User (trim (currentTurnInputRef p))] else [])
     @ (if turnComplete m \<and> trim (currentTurnOutputRef p) \<noteq> []
        then [final_item e ''-model'' Model (trim (currentTurnOutputRef p))] else [])"
  "currentTurnInputRef (onMessageReceived_turn e m p) =
     (if turnComplete m \<and> trim (currentTurnInputRef p) \<noteq> [] then []
      else currentTurnInputRef p)"
  "currentTurnOutputRef (onMessageReceived_turn e m p) =
     (if (turnComplete m \<and> trim (currentTurnOutputRef p) \<noteq> []) \<or> interrupted m then []
      else currentTurnOutputRef p)"
  "currentOutput (onMessageReceived_turn e m p) =
     (if (turnComplete m \<and> trim (currentTurnOutputRef p) \<noteq> []) \<or> interrupted m then []
      else currentOutput p)"
  "interrupted m \<Longrightarrow> nodes (onMessageReceived_turn e m p) = stop_sources (audioSourcesRef p) (nodes p)"
  "interrupted m \<Longrightarrow> audioSourcesRef (onMessageReceived_turn e m p) = []"
  "interrupted m \<Longrightarrow> nextStartTimeRef (onMessageReceived_turn e m p) = 0"
  by (simp_all add: onMessageReceived_turn_def Let_def flushPlayback_def)

lemma final_item_fields:
  "role (final_item e x r t) = r" "item_text (final_item e x r t) = t"
  "isFinal (final_item e x r t)" "image (final_item e x r t) = None"
  by (simp_all add: final_item_def)

text \<open>
  Claim C4.  An interrupt event (a message with \<open>interrupted\<close> set, no turn
  completion and no tool call) leaves the model-side partial buffer empty
  and the transcript history as it was, changes the user-side buffer by
  nothing but the message's own input fragment, and flushes playback.  A
  turn-complete event appends one finalized item for each direction whose
  trimmed buffer is not empty, the user's first, and clears that
  direction's buffer; a direction whose trimmed buffer is empty appends
  nothing and keeps its buffer.  A message with both flags acts as its
  turn-complete event followed by its interrupt event.
\<close>

theorem turn_commit_exclusivity:
  "(interrupted m \<and> \<not> turnComplete m \<and> toolCall m = None \<longrightarrow>
      (let s' = onMessageReceived e m s
       in currentTurnOutputRef s' = [] \<and> currentOutput s' = [] \<and>
          transcripts s' = transcripts s \<and>
          currentTurnInputRef s' =
            currentTurnInputRef s @ (case inputTranscription m of None \<Rightarrow> [] | Some t \<Rightarrow> t) \<and>
          nodes s' = stop_sources (audioSourcesRef s) (nodes s) \<and>
          audioSourcesRef s' = [] \<and> nextStartTimeRef s' = 0)) \<and>
   (turnComplete m \<and> toolCall m = None \<longrightarrow>
      (let p = onMessageReceived_partials m s;
           finalInput = trim (currentTurnInputRef p);
           finalOutput = trim (currentTurnOutputRef p);
           u = final_item e ''-user'' User finalInput;
           v = final_item e ''-model'' Model finalOutput;
           s' = onMessageReceived e m s
       in transcripts s' = transcripts s
            @ (if finalInput \<noteq> [] then [u] else [])
            @ (if finalOutput \<noteq> [] then [v] else []) \<and>
          role u = User \<and> item_text u = finalInput \<and> isFinal u \<and>
          role v = Model \<and> item_text v = finalOutput \<and> isFinal v \<and>
          currentTurnInputRef s' = (if finalInput \<noteq> [] then [] else currentTurnInputRef p) \<and>
          currentTurnOutputRef s' =
            (if finalOutput \<noteq> [] \<or> interrupted m then [] else currentTurnOutputRef p))) \<and>
   (toolCall m = None \<longrightarrow>
      onMessageReceived e m s =
        onMessageReceived e (empty_message\<lparr>interrupted := interrupted m\<rparr>)
          (onMessageReceived e (m\<lparr>interrupted := False\<rparr>) s))"
proof (intro conjI impI)
  assume "interrupted m \<and> \<not> turnComplete m \<and> toolCall m = None"
  then show "let s' = onMessageReceived e m s
       in currentTurnOutputRef s' = [] \<and> currentOutput s' = [] \<and>
          transcripts s' = transcripts s \<and>
          currentTurnInputRef s' =
            currentTurnInputRef s @ (case inputTranscription m of None \<Rightarrow> [] | Some t \<Rightarrow> t) \<and>
          nodes s' = stop_sources (audioSourcesRef s) (nodes s) \<and>
          audioSourcesRef s' = [] \<and> nextStartTimeRef s' = 0"
    by (simp add: Let_def onMessageReceived_no_calls turn_fields partials_fields)
next
  assume "turnComplete m \<and> toolCall m = None"
  then show "let p = onMessageReceived_partials m s;
           finalInput = trim (currentTurnInputRef p);
           finalOutput = trim (currentTurnOutputRef p);
           u = final_item e ''-user'' User finalInput;
           v = final_item e ''-model'' Model finalOutput;
           s' = onMessageReceived e m s
       in transcripts s' = transcripts s
            @ (if finalInput \<noteq> [] then [u] else [])
            @ (if finalOutput \<noteq> [] then [v] else []) \<and>
          role u = User \<and> item_text u = finalInput \<and> isFinal u \<and>
          role v = Model \<and> item_text v = finalOutput \<and> isFinal v \<and>
          currentTurnInputRef s' = (if finalInput \<noteq> [] then [] else currentTurnInputRef p) \<and>
          currentTurnOutputRef s' =
            (if finalOutput \<noteq> [] \<or> interrupted m then [] else currentTurnOutputRef p)"
    by (simp add: Let_def onMessageReceived_no_calls turn_fields final_item_fields
        partials_fields(5))
next
  assume t: "toolCall m = None"
  have p: "\<And>t. onMessageReceived_partials (empty_message\<lparr>interrupted := interrupted m\<rparr>) t = t"
    "onMessageReceived_partials (m\<lparr>interrupted := False\<rparr>) s = onMessageReceived_partials m s"
    by (simp_all add: onMessageReceived_partials_def empty_message_def)
  have "toolCall (empty_message\<lparr>interrupted := interrupted m\<rparr>) = None"
    "toolCall (m\<lparr>interrupted := False\<rparr>) = None"
    using t by (simp_all add: empty_message_def)
  then show "onMessageReceived e m s =
        onMessageReceived e (empty_message\<lparr>interrupted := interrupted m\<rparr>)
          (onMessageReceived e (m\<lparr>interrupted := False\<rparr>) s)"
    using t by (simp add: onMessageReceived_no_calls p)
      (simp add: onMessageReceived_turn_def Let_def empty_message_def)
qed

text \<open>
  The theorem at the pending texts \<^verbatim>\<open>hello\<close> and
  \<^verbatim>\<open>world\<close>.
\<close>

theorem turn_commit_exclusivity_witness:
  "currentTurnOutputRef (onMessageReceived \<lparr>api_key = None, dateNow = 0, currentTime = 0\<rparr>
      (empty_message\<lparr>interrupted := True\<rparr>)
      (initial_app\<lparr>currentTurnInputRef := js ''hello'', currentTurnOutputRef := js ''world''\<rparr>)) = [] \<and>
   transcripts (onMessageReceived \<lparr>api_key = None, dateNow = 0, currentTime = 0\<rparr>
      (empty_message\<lparr>interrupted := True\<rparr>)
      (initial_app\<lparr>currentTurnInputRef := js ''hello'', currentTurnOutputRef := js ''world''\<rparr>)) = [] \<and>
   currentTurnInputRef (onMessageReceived \<lparr>api_key = None, dateNow = 0, currentTime = 0\<rparr>
      (empty_message\<lparr>interrupted := True\<rparr>)
      (initial_app\<lparr>currentTurnInputRef := js ''hello'', currentTurnOutputRef := js ''world''\<rparr>))
     = js ''hello'' \<and>
   map item_text (transcripts (onMessageReceived \<lparr>api_key = None, dateNow = 0, currentTime = 0\<rparr>
      (empty_message\<lparr>turnComplete := True\<rparr>)
      (initial_app\<lparr>currentTurnInputRef := js ''hello'', currentTurnOutputRef := js ''world''\<rparr>)))
     = [js ''hello'', js ''world'']"
proof -
  let ?e = "\<lparr>api_key = None, dateNow = 0, currentTime = 0\<rparr>"
  let ?s = "initial_app\<lparr>currentTurnInputRef := js ''hello'', currentTurnOutputRef := js ''world''\<rparr>"
  let ?i = "empty_message\<lparr>interrupted := True\<rparr>"
  let ?t = "empty_message\<lparr>turnComplete := True\<rparr>"
  have i: "interrupted ?i \<and> \<not> turnComplete ?i \<and> toolCall ?i = None"
    by (simp add: empty_message_def)
  have t: "turnComplete ?t \<and> toolCall ?t = None"
    by (simp add: empty_message_def)
  have p: "onMessageReceived_partials ?t ?s = ?s"
    by (simp add: onMessageReceived_partials_def empty_message_def)
  have n: "trim (js ''hello'') \<noteq> []" "trim (js ''world'') \<noteq> []"
    by (simp_all add: trim_hello) (simp_all add: js_def)
  from turn_commit_exclusivity [of ?i ?e ?s, THEN conjunct1, THEN mp, OF i]
  have 1: "currentTurnOutputRef (onMessageReceived ?e ?i ?s) = []"
    "transcripts (onMessageReceived ?e ?i ?s) = transcripts ?s"
    "currentTurnInputRef (onMessageReceived ?e ?i ?s) =
       currentTurnInputRef ?s @ (case inputTranscription ?i of None \<Rightarrow> [] | Some t \<Rightarrow> t)"
    by (simp_all add: Let_def)
  from turn_commit_exclusivity [of ?t ?e ?s, THEN conjunct2, THEN conjunct1, THEN mp, OF t]
  have 2: "transcripts (onMessageReceived ?e ?t ?s) = transcripts ?s
       @ [final_item ?e ''-user'' User (trim (js ''hello'')),
          final_item ?e ''-model'' Model (trim (js ''world''))]"
    using n by (simp add: Let_def p)
  show ?thesis
    using 1 2 by (simp add: final_item_fields trim_hello) (simp add: initial_app_def empty_message_def)
qed

lemma decode_fails_iff:
  "(\<exists>err. decodeAudioData frame 24000 = Inl err) \<longleftrightarrow>
   (case base64ToArrayBuffer frame of
      Inl err \<Rightarrow> True
    | Inr bytes \<Rightarrow> odd (length bytes) \<or> bytes = [])"
proof (cases "base64ToArrayBuffer frame")
  case (Inl err)
  then show ?thesis by (simp add: decodeAudioData_def)
next
  case (Inr bytes)
  have z: "int16_of_bytes bytes = [] \<longleftrightarrow> length bytes < 2"
    by (cases bytes rule: int16_of_bytes.cases) simp_all
  show ?thesis
  proof (cases "odd (length bytes)")
    case True
    then show ?thesis using Inr by (simp add: decodeAudioData_def new_Int16Array_def)
  next
    case False
    then have "length bytes < 2 \<longleftrightarrow> bytes = []"
      by (cases bytes rule: int16_of_bytes.cases) simp_all
    then show ?thesis
      using Inr False z by (simp add: decodeAudioData_def new_Int16Array_def createBuffer_def)
  qed
qed

text \<open>
  Claim C7, as amended.  Decoding an inbound frame fails exactly when the
  payload is not base64, or the decoded byte length is odd, or it is
  zero.  A message whose frame fails to decode is handled as the same
  message without a frame: the failure is dropped, the playback schedule
  is untouched, and the frame of the next message is decoded and
  scheduled.
\<close>

theorem decode_error_isolation:
  "((\<exists>err. decodeAudioData frame 24000 = Inl err) \<longleftrightarrow>
      (case base64ToArrayBuffer frame of
         Inl err \<Rightarrow> True
       | Inr bytes \<Rightarrow> odd (length bytes) \<or> bytes = [])) \<and>
   (audioData m = Some frame \<and> (\<exists>err. decodeAudioData frame 24000 = Inl err) \<longrightarrow>
      onmessage e m s = onMessageReceived e m s \<and>
      (\<not> interrupted m \<longrightarrow>
         nodes (onmessage e m s) = nodes s \<and>
         audioSourcesRef (onmessage e m s) = audioSourcesRef s \<and>
         nextStartTimeRef (onmessage e m s) = nextStartTimeRef s)) \<and>
   (audioData m = Some frame \<and> (\<exists>err. decodeAudioData frame 24000 = Inl err) \<and>
    audioData m2 = Some f2 \<and> decodeAudioData f2 24000 = Inr b \<and>
    outputAudioContextRef s \<noteq> None \<longrightarrow>
      (let s1 = onMessageReceived e2 m2 (onMessageReceived e m s)
       in onmessage e2 m2 (onmessage e m s) =
            schedule (max (nextStartTimeRef s1) (currentTime e2)) b s1))"
proof (intro conjI impI)
  show "(\<exists>err. decodeAudioData frame 24000 = Inl err) \<longleftrightarrow>
      (case base64ToArrayBuffer frame of
         Inl err \<Rightarrow> True
       | Inr bytes \<Rightarrow> odd (length bytes) \<or> bytes = [])"
    by (rule decode_fails_iff)
next
  assume "audioData m = Some frame \<and> (\<exists>err. decodeAudioData frame 24000 = Inl err)"
  then show "onmessage e m s = onMessageReceived e m s"
    by (auto simp: onmessage_decode_failed)
next
  assume a: "audioData m = Some frame \<and> (\<exists>err. decodeAudioData frame 24000 = Inl err)"
    and n: "\<not> interrupted m"
  from a have "onmessage e m s = onMessageReceived e m s"
    by (auto simp: onmessage_decode_failed)
  then show "nodes (onmessage e m s) = nodes s"
    "audioSourcesRef (onmessage e m s) = audioSourcesRef s"
    "nextStartTimeRef (onmessage e m s) = nextStartTimeRef s"
    using n by (simp_all add: onMessageReceived_playback)
next
  assume a: "audioData m = Some frame \<and> (\<exists>err. decodeAudioData frame 24000 = Inl err) \<and>
    audioData m2 = Some f2 \<and> decodeAudioData f2 24000 = Inr b \<and>
    outputAudioContextRef s \<noteq> None"
  then have 1: "onmessage e m s = onMessageReceived e m s"
    by (auto simp: onmessage_decode_failed)
  have "outputAudioContextRef (onMessageReceived e m s) \<noteq> None"
    using a by (simp add: onMessageReceived_ctx)
  with a show "let s1 = onMessageReceived e2 m2 (onMessageReceived e m s)
       in onmessage e2 m2 (onmessage e m s) =
            schedule (max (nextStartTimeRef s1) (currentTime e2)) b s1"
    by (simp add: 1 Let_def onmessage_scheduled)
qed

lemma decode_one_byte: "decodeAudioData (js ''AA=='') 24000 = Inl RangeError"
  by (simp add: decodeAudioData_def base64ToArrayBuffer_def atob_def
        is_ascii_whitespace_def strip_padding_def b64_index_def new_Int16Array_def
        b64_alphabet_def js_def pad_char_def)

text \<open>The theorem at a frame of one byte, followed by a frame of one sample.\<close>

theorem decode_error_isolation_witness:
  "decodeAudioData (js ''AA=='') 24000 = Inl RangeError \<and>
   nodes (onmessage \<lparr>api_key = None, dateNow = 0, currentTime = 1\<rparr>
            (audio_message (js ''AAA=''))
            (onmessage \<lparr>api_key = None, dateNow = 0, currentTime = 1\<rparr>
               (audio_message (js ''AA==''))
               (initial_app\<lparr>outputAudioContextRef := Some running\<rparr>)))
   = [\<lparr>startAt = 1,
       node_buffer = \<lparr>numberOfChannels = 1, sampleRate = 24000, channelData = [0]\<rparr>,
       playback = Started\<rparr>]"
proof -
  let ?e = "\<lparr>api_key = None, dateNow = 0, currentTime = 1\<rparr>"
  let ?s = "initial_app\<lparr>outputAudioContextRef := Some running\<rparr>"
  let ?b = "\<lparr>numberOfChannels = 1, sampleRate = 24000, channelData = [0]\<rparr>"
  have h: "audioData (audio_message (js ''AA=='')) = Some (js ''AA=='') \<and>
    (\<exists>err. decodeAudioData (js ''AA=='') 24000 = Inl err) \<and>
    audioData (audio_message (js ''AAA='')) = Some (js ''AAA='') \<and>
    decodeAudioData (js ''AAA='') 24000 = Inr ?b \<and>
    outputAudioContextRef ?s \<noteq> None"
    by (simp add: audio_message_fields decode_one_byte decode_zero_sample)
  note d = decode_error_isolation [of "js ''AA==''" "audio_message (js ''AA=='')" ?e ?s
      "audio_message (js ''AAA='')" "js ''AAA=''" ?b ?e]
  from d [THEN conjunct2, THEN conjunct2, rule_format, OF h]
  have "onmessage ?e (audio_message (js ''AAA='')) (onmessage ?e (audio_message (js ''AA=='')) ?s)
      = schedule (max (nextStartTimeRef ?s) 1) ?b ?s"
    by (simp add: Let_def onMessageReceived_audio_message)
  then show ?thesis
    by (simp add: decode_one_byte schedule_fields) (simp add: initial_app_def)
qed

text \<open>
  Claim C7 as stated fails at a frame of white space, which decodes to no
  bytes at all, an even number, and yet cannot be made a buffer; and at a
  frame that is not base64, where decoding fails with no byte length to
  speak of.
\<close>

theorem decode_error_counterexample:
  "base64ToArrayBuffer (js '' '') = Inr [] \<and>
   \<not> odd (length ([] :: byte list)) \<and>
   decodeAudioData (js '' '') 24000 = Inl NotSupportedError \<and>
   base64ToArrayBuffer (js ''A'') = Inl InvalidCharacterError \<and>
   decodeAudioData (js ''A'') 24000 = Inl InvalidCharacterError"
  by (simp add: decodeAudioData_def base64ToArrayBuffer_def atob_def
        is_ascii_whitespace_def strip_padding_def b64_index_def new_Int16Array_def
        createBuffer_def b64_alphabet_def js_def pad_char_def)

text \<open>
  Claim C8, as amended.  Flushing the playback schedule, as an interrupted
  message and \<open>stopSession\<close> both do, stops every handle of the live set (a
  handle that no longer plays is left as it is, its error swallowed),
  empties the set and resets the next start time to 0, so that the next
  buffer starts at the output clock's current time.  Flushing twice is
  flushing once, and flushing an empty schedule only resets the next
  start time.
\<close>

theorem flush_idempotence:
  "(\<forall>i \<in> set (audioSourcesRef s).
      i < length (nodes s) \<longrightarrow> playback (nodes (flushPlayback s) ! i) \<noteq> Started) \<and>
   (\<forall>i < length (nodes s).
      playback (nodes s ! i) \<noteq> Started \<longrightarrow> nodes (flushPlayback s) ! i = nodes s ! i) \<and>
   length (nodes (flushPlayback s)) = length (nodes s) \<and>
   audioSourcesRef (flushPlayback s) = [] \<and>
   nextStartTimeRef (flushPlayback s) = 0 \<and>
   flushPlayback (flushPlayback s) = flushPlayback s \<and>
   (audioSourcesRef s = [] \<longrightarrow> flushPlayback s = s\<lparr>nextStartTimeRef := 0\<rparr>) \<and>
   (0 \<le> currentTime e \<and> decodeAudioData f 24000 = Inr b \<and> outputAudioContextRef s \<noteq> None \<longrightarrow>
      nodes (onmessage e (audio_message f) (flushPlayback s)) =
        nodes (flushPlayback s) @ [\<lparr>startAt = currentTime e, node_buffer = b, playback = Started\<rparr>]) \<and>
   (interrupted m \<and> toolCall m = None \<longrightarrow>
      nodes (onMessageReceived e m s) = nodes (flushPlayback s) \<and>
      audioSourcesRef (onMessageReceived e m s) = [] \<and>
      nextStartTimeRef (onMessageReceived e m s) = 0) \<and>
   nodes (stopSession e full s) = nodes (flushPlayback s) \<and>
   audioSourcesRef (stopSession e full s) = [] \<and>
   nextStartTimeRef (stopSession e full s) = 0"
proof (intro conjI ballI allI impI)
  fix i assume "i \<in> set (audioSourcesRef s)" "i < length (nodes s)"
  then show "playback (nodes (flushPlayback s) ! i) \<noteq> Started"
    by (simp add: flushPlayback_def stop_sources_nth)
next
  fix i assume "i < length (nodes s)" "playback (nodes s ! i) \<noteq> Started"
  then show "nodes (flushPlayback s) ! i = nodes s ! i"
    by (simp add: flushPlayback_def stop_sources_nth)
next
  show "length (nodes (flushPlayback s)) = length (nodes s)"
    by (simp add: flushPlayback_def)
  show "audioSourcesRef (flushPlayback s) = []" "nextStartTimeRef (flushPlayback s) = 0"
    by (simp_all add: flushPlayback_def)
  show "flushPlayback (flushPlayback s) = flushPlayback s"
    by (rule flushPlayback_idem)
next
  assume "audioSourcesRef s = []"
  then show "flushPlayback s = s\<lparr>nextStartTimeRef := 0\<rparr>"
    by (rule flushPlayback_empty)
next
  assume a: "0 \<le> currentTime e \<and> decodeAudioData f 24000 = Inr b \<and>
    outputAudioContextRef s \<noteq> None"
  then have "outputAudioContextRef (flushPlayback s) \<noteq> None"
    by (simp add: flushPlayback_def)
  with a have "onmessage e (audio_message f) (flushPlayback s) =
      schedule (max (nextStartTimeRef (flushPlayback s)) (currentTime e)) b (flushPlayback s)"
    by (simp add: onmessage_scheduled audio_message_fields onMessageReceived_audio_message)
  with a show "nodes (onmessage e (audio_message f) (flushPlayback s)) =
        nodes (flushPlayback s) @ [\<lparr>startAt = currentTime e, node_buffer = b, playback = Started\<rparr>]"
    by (simp add: schedule_fields) (simp add: flushPlayback_def)
next
  assume a: "interrupted m \<and> toolCall m = None"
  then show "nodes (onMessageReceived e m s) = nodes (flushPlayback s)"
    "audioSourcesRef (onMessageReceived e m s) = []"
    "nextStartTimeRef (onMessageReceived e m s) = 0"
    by (simp_all add: onMessageReceived_no_calls turn_fields partials_fields flushPlayback_def)
next
  show "nodes (stopSession e full s) = nodes (flushPlayback s)"
    "audioSourcesRef (stopSession e full s) = []"
    "nextStartTimeRef (stopSession e full s) = 0"
    by (simp_all add: stopSession_fields flushPlayback_def)
qed

text \<open>The theorem at a live set of two handles, one playing and one ended.\<close>

theorem flush_idempotence_witness:
  "playback (nodes (flushPlayback
      (initial_app\<lparr>outputAudioContextRef := Some running, nextStartTimeRef := 7,
         audioSourcesRef := [0, 1],
         nodes := [\<lparr>startAt = 6, node_buffer = \<lparr>numberOfChannels = 1, sampleRate = 24000,
                       channelData = [0]\<rparr>, playback = Started\<rparr>,
                   \<lparr>startAt = 5, node_buffer = \<lparr>numberOfChannels = 1, sampleRate = 24000,
                       channelData = [0]\<rparr>, playback = Ended\<rparr>]\<rparr>)) ! 0) \<noteq> Started \<and>
   playback (nodes (flushPlayback
      (initial_app\<lparr>outputAudioContextRef := Some running, nextStartTimeRef := 7,
         audioSourcesRef := [0, 1],
         nodes := [\<lparr>startAt = 6, node_buffer = \<lparr>numberOfChannels = 1, sampleRate = 24000,
                       channelData = [0]\<rparr>, playback = Started\<rparr>,
                   \<lparr>startAt = 5, node_buffer = \<lparr>numberOfChannels = 1, sampleRate = 24000,
                       channelData = [0]\<rparr>, playback = Ended\<rparr>]\<rparr>)) ! 1) = Ended \<and>
   startAt (nodes (onmessage \<lparr>api_key = None, dateNow = 0, currentTime = 5\<rparr>
      (audio_message (js ''AAA=''))
      (flushPlayback
        (initial_app\<lparr>outputAudioContextRef := Some running, nextStartTimeRef := 7,
           audioSourcesRef := [0, 1],
           nodes := [\<lparr>startAt = 6, node_buffer = \<lparr>numberOfChannels = 1, sampleRate = 24000,
                         channelData = [0]\<rparr>, playback = Started\<rparr>,
                     \<lparr>startAt = 5, node_buffer = \<lparr>numberOfChannels = 1, sampleRate = 24000,
                         channelData = [0]\<rparr>, playback = Ended\<rparr>]\<rparr>))) ! 2) = 5"
proof -
  let ?b = "\<lparr>numberOfChannels = 1, sampleRate = 24000, channelData = [0]\<rparr>"
  let ?s = "initial_app\<lparr>outputAudioContextRef := Some running, nextStartTimeRef := 7,
         audioSourcesRef := [0, 1],
         nodes := [\<lparr>startAt = 6, node_buffer = ?b, playback = Started\<rparr>,
                   \<lparr>startAt = 5, node_buffer = ?b, playback = Ended\<rparr>]\<rparr>"
  let ?e = "\<lparr>api_key = None, dateNow = 0, currentTime = 5\<rparr>"
  note f = flush_idempotence [of ?s ?e "js ''AAA=''" ?b empty_message True]
  have s: "audioSourcesRef ?s = [0, 1]" "length (nodes ?s) = 2"
    "playback (nodes ?s ! 1) = Ended" "outputAudioContextRef ?s \<noteq> None"
    by simp_all
  have 1: "playback (nodes (flushPlayback ?s) ! 0) \<noteq> Started"
    using f [THEN conjunct1, rule_format, of 0] s by simp
  have 2: "nodes (flushPlayback ?s) ! 1 = nodes ?s ! 1"
    using f [THEN conjunct2, THEN conjunct1, rule_format, of 1] s by simp
  have l: "length (nodes (flushPlayback ?s)) = 2"
    using f s by simp
  have h: "0 \<le> currentTime ?e \<and> decodeAudioData (js ''AAA='') 24000 = Inr ?b \<and>
      outputAudioContextRef ?s \<noteq> None"
    by (simp add: decode_zero_sample)
  have 3: "nodes (onmessage ?e (audio_message (js ''AAA='')) (flushPlayback ?s)) =
        nodes (flushPlayback ?s) @ [\<lparr>startAt = currentTime ?e, node_buffer = ?b, playback = Started\<rparr>]"
    using f h by blast
  have "startAt (nodes (onmessage ?e (audio_message (js ''AAA='')) (flushPlayback ?s)) ! 2) = 5"
    using 3 l by (simp add: nth_append)
  with 1 2 s(3) show ?thesis by simp
qed

text \<open>
  Claim C8 as stated fails on the next start time: after a flush at clock
  time 5, by an interrupted message or by \<open>stopSession\<close>, it
  is 0 and not 5.
\<close>

theorem flush_idempotence_counterexample:
  "nextStartTimeRef (onmessage \<lparr>api_key = None, dateNow = 0, currentTime = 5\<rparr>
      (empty_message\<lparr>interrupted := True\<rparr>)
      (initial_app\<lparr>outputAudioContextRef := Some running, nextStartTimeRef := 7\<rparr>)) = 0 \<and>
   nextStartTimeRef (stopSession \<lparr>api_key = None, dateNow = 0, currentTime = 5\<rparr> True
      (initial_app\<lparr>outputAudioContextRef := Some running, nextStartTimeRef := 7\<rparr>)) = 0 \<and>
   currentTime \<lparr>api_key = None, dateNow = 0, currentTime = 5\<rparr> = 5 \<and>
   (0 :: real) \<noteq> 5"
  by (simp add: onmessage_no_audio onMessageReceived_no_calls turn_fields stopSession_fields
      empty_message_def)

section \<open>Errors and retries\<close>

lemma delay_clearTimeout: "map delay (clearTimeout t ts) = map delay ts"
  by (simp add: clearTimeout_def map_update list_update_same_conv)

lemma delay_stopSession: "map delay (timers (stopSession e f s)) = map delay (timers s)"
  by (simp add: stopSession_timers delay_clearTimeout split: option.split)

lemma length_timers_stopSession: "length (timers (stopSession e f s)) = length (timers s)"
  using delay_stopSession [of e f s, THEN arg_cong, of length] by simp

lemma build_fields:
  "retryCountRef (build_graph s) = retryCountRef s" "timers (build_graph s) = timers s"
  "retryCountRef (acquire_contexts s) = retryCountRef s"
  "timers (acquire_contexts s) = timers s"
  by (simp_all add: build_graph_def acquire_contexts_def)

lemma start_failed_fields:
  "retryCountRef (start_failed e msg s) = retryCountRef s"
  "map delay (timers (start_failed e msg s)) = map delay (timers s)"
  by (simp_all add: start_failed_def stopSession_fields delay_stopSession)

lemma startSession_fields:
  "retryCountRef (startSession e outcome s) = retryCountRef s"
  "map delay (timers (startSession e outcome s)) = map delay (timers s)"
  by (simp_all add: startSession_def Let_def start_failed_fields build_fields
      split: start_outcome.split)

lemma timer_fires_fields:
  "retryCountRef (timer_fires e t outcome s) = retryCountRef s"
  "map delay (timers (timer_fires e t outcome s)) = map delay (timers s)"
  by (simp_all add: timer_fires_def startSession_fields map_update list_update_same_conv)

lemma onerror_retry:
  assumes "retryCountRef s < 3"
  shows "status (onerror e err s) = CONNECTING"
    and "retryCountRef (onerror e err s) = retryCountRef s + 1"
    and "map delay (timers (onerror e err s)) = map delay (timers s) @ [2000]"
    and "reconnectTimeoutRef (onerror e err s) = Some (length (timers s))"
    and "timer_state (timers (onerror e err s) ! length (timers s)) = Pending"
    and "errorMsg (onerror e err s) =
      Some (js ''Connection lost. Reconnecting ('' @ string_of_nat (retryCountRef s + 1)
            @ js ''/'' @ string_of_nat MAX_RETRIES @ js '')...'')"
proof -
  let ?s1 = "s\<lparr>status := CONNECTING,
      errorMsg := Some (js ''Connection lost. Reconnecting (''
        @ string_of_nat (retryCountRef s + 1) @ js ''/'' @ string_of_nat MAX_RETRIES
        @ js '')...''),
      retryCountRef := retryCountRef s + 1\<rparr>"
  have o: "onerror e err s = setTimeout 2000 (stopSession e False ?s1)"
    using assms by (simp add: onerror_def MAX_RETRIES_def Let_def)
  have l: "length (timers (stopSession e False ?s1)) = length (timers s)"
    by (simp add: length_timers_stopSession)
  show "status (onerror e err s) = CONNECTING"
    "retryCountRef (onerror e err s) = retryCountRef s + 1"
    "errorMsg (onerror e err s) =
      Some (js ''Connection lost. Reconnecting ('' @ string_of_nat (retryCountRef s + 1)
            @ js ''/'' @ string_of_nat MAX_RETRIES @ js '')...'')"
    by (simp_all add: o setTimeout_def stopSession_fields)
  show "map delay (timers (onerror e err s)) = map delay (timers s) @ [2000]"
    by (simp add: o setTimeout_def delay_stopSession)
  show "reconnectTimeoutRef (onerror e err s) = Some (length (timers s))"
    using l by (simp add: o setTimeout_def)
  show "timer_state (timers (onerror e err s) ! length (timers s)) = Pending"
    using l by (simp add: o setTimeout_def nth_append)
qed

lemma onerror_exhausted:
  assumes "\<not> retryCountRef s < 3"
  shows "status (onerror e err s) = ERROR"
    and "retryCountRef (onerror e err s) = retryCountRef s"
    and "map delay (timers (onerror e err s)) = map delay (timers s)"
    and "reconnectTimeoutRef (onerror e err s) = None"
    and "errorMsg (onerror e err s) = Some (thrown_message err @ js '' (Max retries reached)'')"
proof -
  let ?s1 = "s\<lparr>errorMsg := Some (thrown_message err @ js '' (Max retries reached)''),
                status := ERROR\<rparr>"
  have o: "onerror e err s = stopSession e False ?s1"
    using assms by (simp add: onerror_def MAX_RETRIES_def Let_def)
  show "status (onerror e err s) = ERROR"
    "retryCountRef (onerror e err s) = retryCountRef s"
    "reconnectTimeoutRef (onerror e err s) = None"
    "errorMsg (onerror e err s) = Some (thrown_message err @ js '' (Max retries reached)'')"
    by (simp_all add: o stopSession_fields)
  show "map delay (timers (onerror e err s)) = map delay (timers s)"
    by (simp add: o delay_stopSession)
qed

lemma timer_fires_pending:
  "t < length (timers s) \<Longrightarrow> timer_state (timers s ! t) = Pending \<Longrightarrow>
   timer_fires e t outcome s =
     startSession e outcome (s\<lparr>timers := (timers s)[t := (timers s ! t)\<lparr>timer_state := Fired\<rparr>]\<rparr>)"
  by (simp add: timer_fires_def)

lemma length_timers:
  "length (timers s') = length (map delay (timers s'))"
  by simp

lemma errors_when_exhausted:
  assumes "\<not> retryCountRef s < 3"
  shows "map delay (timers (run (map (\<lambda>(e, x). (e, OnError x)) errs) s)) = map delay (timers s) \<and>
         retryCountRef (run (map (\<lambda>(e, x). (e, OnError x)) errs) s) = retryCountRef s \<and>
         (errs \<noteq> [] \<longrightarrow>
            status (run (map (\<lambda>(e, x). (e, OnError x)) errs) s) = ERROR \<and>
            reconnectTimeoutRef (run (map (\<lambda>(e, x). (e, OnError x)) errs) s) = None)"
  using assms
proof (induction errs arbitrary: s)
  case Nil
  then show ?case by simp
next
  case (Cons ex errs)
  obtain e x where ex: "ex = (e, x)" by (cases ex)
  let ?s = "onerror e x s"
  note a = onerror_exhausted [OF Cons.prems, of e x]
  have n: "\<not> retryCountRef ?s < 3" using a(2) Cons.prems by simp
  note i = Cons.IH [OF n]
  show ?case
  proof (cases "errs = []")
    case True
    then show ?thesis using a by (simp add: ex)
  next
    case False
    then show ?thesis using i a by (simp add: ex)
  qed
qed

text \<open>
  Claim C2.  From a state whose retry counter is 0, four transport errors
  in a row, each restart fired by its timer in between and no connection
  opened: the first three errors set the status to \<open>CONNECTING\<close>, count
  the retry (1, 2, 3) and set one pending timeout of 2000 ms each, whose
  firing calls \<open>startSession\<close>; the fourth sets the status to \<open>ERROR\<close> and
  the error message to the error's message followed by
  \<^verbatim>\<open> (Max retries reached)\<close>, and sets no timeout; no error after it sets
  one either.  \<open>onopen\<close> resets the retry counter to 0.
\<close>

theorem retry_bound:
  assumes "retryCountRef s = 0"
  shows "let n = length (timers s);
             s1 = onerror e1 x1 s; s2 = timer_fires e2 n o1 s1;
             s3 = onerror e3 x2 s2; s4 = timer_fires e4 (n + 1) o2 s3;
             s5 = onerror e5 x3 s4; s6 = timer_fires e6 (n + 2) o3 s5;
             s7 = onerror e7 x4 s6
         in status s1 = CONNECTING \<and> retryCountRef s1 = 1 \<and>
            reconnectTimeoutRef s1 = Some n \<and> timer_state (timers s1 ! n) = Pending \<and>
            status s3 = CONNECTING \<and> retryCountRef s3 = 2 \<and>
            reconnectTimeoutRef s3 = Some (n + 1) \<and> timer_state (timers s3 ! (n + 1)) = Pending \<and>
            status s5 = CONNECTING \<and> retryCountRef s5 = 3 \<and>
            reconnectTimeoutRef s5 = Some (n + 2) \<and> timer_state (timers s5 ! (n + 2)) = Pending \<and>
            s2 = startSession e2 o1
                   (s1\<lparr>timers := (timers s1)[n := (timers s1 ! n)\<lparr>timer_state := Fired\<rparr>]\<rparr>) \<and>
            s4 = startSession e4 o2
                   (s3\<lparr>timers := (timers s3)[n + 1 := (timers s3 ! (n + 1))\<lparr>timer_state := Fired\<rparr>]\<rparr>) \<and>
            s6 = startSession e6 o3
                   (s5\<lparr>timers := (timers s5)[n + 2 := (timers s5 ! (n + 2))\<lparr>timer_state := Fired\<rparr>]\<rparr>) \<and>
            status s7 = ERROR \<and>
            errorMsg s7 = Some (thrown_message x4 @ js '' (Max retries reached)'') \<and>
            retryCountRef s7 = 3 \<and> reconnectTimeoutRef s7 = None \<and>
            map delay (timers s7) = map delay (timers s) @ [2000, 2000, 2000] \<and>
            (\<forall>errs. map delay (timers (run (map (\<lambda>(e, x). (e, OnError x)) errs) s7))
                      = map delay (timers s7) \<and>
                    (errs \<noteq> [] \<longrightarrow>
                       status (run (map (\<lambda>(e, x). (e, OnError x)) errs) s7) = ERROR)) \<and>
            retryCountRef (onopen s') = 0 \<and> status (onopen s') = CONNECTED"
proof -
  define n where "n = length (timers s)"
  define s1 where "s1 = onerror e1 x1 s"
  define s2 where "s2 = timer_fires e2 n o1 s1"
  define s3 where "s3 = onerror e3 x2 s2"
  define s4 where "s4 = timer_fires e4 (n + 1) o2 s3"
  define s5 where "s5 = onerror e5 x3 s4"
  define s6 where "s6 = timer_fires e6 (n + 2) o3 s5"
  define s7 where "s7 = onerror e7 x4 s6"
  have r0: "retryCountRef s < 3" using assms by simp
  note a1 = onerror_retry [OF r0, of e1 x1, folded s1_def n_def]
  have d1: "map delay (timers s1) = map delay (timers s) @ [2000]" by (rule a1(3))
  have l1: "length (timers s1) = n + 1"
    using d1 [THEN arg_cong, of length] by (simp add: n_def)
  have f1: "s2 = startSession e2 o1
                   (s1\<lparr>timers := (timers s1)[n := (timers s1 ! n)\<lparr>timer_state := Fired\<rparr>]\<rparr>)"
    unfolding s2_def using l1 a1(5) by (simp add: timer_fires_pending)
  have c2: "retryCountRef s2 = 1" "map delay (timers s2) = map delay (timers s) @ [2000]"
    using a1(2) d1 assms by (simp_all add: s2_def timer_fires_fields)
  have l2: "length (timers s2) = n + 1"
    using c2(2) [THEN arg_cong, of length] by (simp add: n_def)
  have r2: "retryCountRef s2 < 3" using c2 by simp
  note a3 = onerror_retry [OF r2, of e3 x2, folded s3_def, unfolded l2 c2]
  have d3: "map delay (timers s3) = map delay (timers s) @ [2000, 2000]"
    using a3(3) by simp
  have l3: "length (timers s3) = n + 2"
    using d3 [THEN arg_cong, of length] by (simp add: n_def)
  have f3: "s4 = startSession e4 o2
                   (s3\<lparr>timers := (timers s3)[n + 1 := (timers s3 ! (n + 1))\<lparr>timer_state := Fired\<rparr>]\<rparr>)"
    unfolding s4_def using l3 a3(5) by (simp add: timer_fires_pending)
  have c4: "retryCountRef s4 = 2" "map delay (timers s4) = map delay (timers s) @ [2000, 2000]"
    using a3(2) d3 by (simp_all add: s4_def timer_fires_fields)
  have l4: "length (timers s4) = n + 2"
    using c4(2) [THEN arg_cong, of length] by (simp add: n_def)
  have r4: "retryCountRef s4 < 3" using c4 by simp
  note a5 = onerror_retry [OF r4, of e5 x3, folded s5_def, unfolded l4 c4]
  have d5: "map delay (timers s5) = map delay (timers s) @ [2000, 2000, 2000]"
    using a5(3) by simp
  have l5: "length (timers s5) = n + 3"
    using d5 [THEN arg_cong, of length] by (simp add: n_def)
  have f5: "s6 = startSession e6 o3
                   (s5\<lparr>timers := (timers s5)[n + 2 := (timers s5 ! (n + 2))\<lparr>timer_state := Fired\<rparr>]\<rparr>)"
    unfolding s6_def using l5 a5(5) by (simp add: timer_fires_pending)
  have c6: "retryCountRef s6 = 3" "map delay (timers s6) = map delay (timers s) @ [2000, 2000, 2000]"
    using a5(2) d5 by (simp_all add: s6_def timer_fires_fields)
  have r6: "\<not> retryCountRef s6 < 3" using c6 by simp
  note a7 = onerror_exhausted [OF r6, of e7 x4, folded s7_def, unfolded c6]
  have r7: "\<not> retryCountRef s7 < 3" using a7(2) by simp
  have e: "\<forall>errs. map delay (timers (run (map (\<lambda>(e, x). (e, OnError x)) errs) s7))
                      = map delay (timers s7) \<and>
                    (errs \<noteq> [] \<longrightarrow>
                       status (run (map (\<lambda>(e, x). (e, OnError x)) errs) s7) = ERROR)"
    using errors_when_exhausted [OF r7] by blast
  have o: "retryCountRef (onopen s') = 0" "status (onopen s') = CONNECTED"
    by (simp_all add: onopen_def)
  have "status s1 = CONNECTING \<and> retryCountRef s1 = 1 \<and>
            reconnectTimeoutRef s1 = Some n \<and> timer_state (timers s1 ! n) = Pending \<and>
            status s3 = CONNECTING \<and> retryCountRef s3 = 2 \<and>
            reconnectTimeoutRef s3 = Some (n + 1) \<and> timer_state (timers s3 ! (n + 1)) = Pending \<and>
            status s5 = CONNECTING \<and> retryCountRef s5 = 3 \<and>
            reconnectTimeoutRef s5 = Some (n + 2) \<and> timer_state (timers s5 ! (n + 2)) = Pending"
    using a1(1,2,4,5) a3(1,2,4,5) a5(1,2,4,5) assms by simp
  then show ?thesis
    unfolding Let_def n_def [symmetric] s1_def [symmetric] s2_def [symmetric] s3_def [symmetric]
      s4_def [symmetric] s5_def [symmetric] s6_def [symmetric] s7_def [symmetric]
    using f1 f3 f5 a7 e o by blast
qed

text \<open>
  The theorem at the initial state and four errors that are not
  \<^verbatim>\<open>Error\<close> objects.
\<close>

theorem retry_bound_witness:
  "status (onerror \<lparr>api_key = Some (js ''key''), dateNow = 0, currentTime = 0\<rparr> OtherValue
     (timer_fires \<lparr>api_key = Some (js ''key''), dateNow = 0, currentTime = 0\<rparr> 2 Connects
     (onerror \<lparr>api_key = Some (js ''key''), dateNow = 0, currentTime = 0\<rparr> OtherValue
     (timer_fires \<lparr>api_key = Some (js ''key''), dateNow = 0, currentTime = 0\<rparr> 1 Connects
     (onerror \<lparr>api_key = Some (js ''key''), dateNow = 0, currentTime = 0\<rparr> OtherValue
     (timer_fires \<lparr>api_key = Some (js ''key''), dateNow = 0, currentTime = 0\<rparr> 0 Connects
     (onerror \<lparr>api_key = Some (js ''key''), dateNow = 0, currentTime = 0\<rparr> OtherValue
        initial_app))))))) = ERROR \<and>
   errorMsg (onerror \<lparr>api_key = Some (js ''key''), dateNow = 0, currentTime = 0\<rparr> OtherValue
     (timer_fires \<lparr>api_key = Some (js ''key''), dateNow = 0, currentTime = 0\<rparr> 2 Connects
     (onerror \<lparr>api_key = Some (js ''key''), dateNow = 0, currentTime = 0\<rparr> OtherValue
     (timer_fires \<lparr>api_key = Some (js ''key''), dateNow = 0, currentTime = 0\<rparr> 1 Connects
     (onerror \<lparr>api_key = Some (js ''key''), dateNow = 0, currentTime = 0\<rparr> OtherValue
     (timer_fires \<lparr>api_key = Some (js ''key''), dateNow = 0, currentTime = 0\<rparr> 0 Connects
     (onerror \<lparr>api_key = Some (js ''key''), dateNow = 0, currentTime = 0\<rparr> OtherValue
        initial_app))))))) = Some (js ''Connection lost (Max retries reached)'') \<and>
   status (onerror \<lparr>api_key = Some (js ''key''), dateNow = 0, currentTime = 0\<rparr> OtherValue
        initial_app) = CONNECTING"
proof -
  let ?e = "\<lparr>api_key = Some (js ''key''), dateNow = 0, currentTime = 0\<rparr>"
  have h: "retryCountRef initial_app = 0" by (simp add: initial_app_def)
  have n: "length (timers initial_app) = 0" by (simp add: initial_app_def)
  have m: "thrown_message OtherValue @ js '' (Max retries reached)''
      = js ''Connection lost (Max retries reached)''"
    by (simp add: thrown_message_def js_def)
  have t: "(0::nat) + 1 = 1" "(0::nat) + 2 = 2" by simp_all
  note r = retry_bound [OF h, where ?e1.0 = ?e and ?x1.0 = OtherValue and ?e2.0 = ?e
      and ?o1.0 = Connects and ?e3.0 = ?e and ?x2.0 = OtherValue and ?e4.0 = ?e
      and ?o2.0 = Connects and ?e5.0 = ?e and ?x3.0 = OtherValue and ?e6.0 = ?e
      and ?o3.0 = Connects and ?e7.0 = ?e and ?x4.0 = OtherValue and ?s' = initial_app, unfolded Let_def n m t]
  from r show ?thesis by (elim conjE) (intro conjI, assumption+)
qed

end
